theory Spec2Isabelle
  imports Complex_Main "HOL-Library.Sublist"
begin

section \<open>JavaScript strings\<close>

text \<open>
  Markup and labels are JavaScript strings. They are modelled as \<open>string\<close>; the only
  operations the code applies to them are \<open>includes\<close> (here \<open>includes_str\<close>),
  \<open>indexOf\<close>, \<open>substring\<close> and concatenation. \<open>indexOf\<close> returns the position of the
  first occurrence, or \<open>-1\<close>.
\<close>

fun indexOf :: "string \<Rightarrow> string \<Rightarrow> int" where
  "indexOf [] pat = (if pat = [] then 0 else -1)"
| "indexOf (c # cs) pat =
     (if prefix pat (c # cs) then 0
      else (let i = indexOf cs pat in if i = -1 then -1 else i + 1))"

definition includes_str :: "string \<Rightarrow> string \<Rightarrow> bool" where
  "includes_str s pat = (indexOf s pat \<noteq> -1)"

text \<open>\<open>s.substring(a, b)\<close>: both indices are clamped to \<open>[0, length]\<close> and swapped when
  \<open>a > b\<close>; \<open>s.substring(a)\<close> runs to the end of the string.\<close>

definition substring :: "string \<Rightarrow> int \<Rightarrow> int \<Rightarrow> string" where
  "substring s a b =
     (let n = int (length s);
          a' = min (max a 0) n;
          b' = min (max b 0) n;
          lo = min a' b';
          hi = max a' b'
      in take (nat (hi - lo)) (drop (nat lo) s))"

definition substringFrom :: "string \<Rightarrow> int \<Rightarrow> string" where
  "substringFrom s a = substring s a (int (length s))"

section \<open>Generation Watcher (content.js, watcherTick)\<close>

datatype status = IDLE | GENERATING

record sound_settings =
  enabled :: bool
  sound :: string
  volume :: rat

text \<open>The global \<open>watcherSystem\<close> object. \<open>stableSince\<close> holds a \<open>Date.now()\<close> reading
  (milliseconds) or null.\<close>

record watcher =
  intervalId :: "nat option"
  status :: status
  lastContentLength :: int
  stableSince :: "int option"
  soundSettings :: "sound_settings option"

definition watcherSystem :: watcher where
  "watcherSystem =
     \<lparr>intervalId = None, status = IDLE, lastContentLength = -1,
      stableSince = None, soundSettings = None\<rparr>"

definition RESPONSE_DEBOUNCE_MS :: int where
  "RESPONSE_DEBOUNCE_MS = 1200"

text \<open>What \<open>chrome.storage.sync.get\<close> gives for the key \<open>soundSettings\<close>: the promise
  rejects, or it resolves with the stored value, if there is one.\<close>

datatype storage_read = StorageFails | Stored "sound_settings option"

text \<open>
  Everything one tick reads from its environment:
  \<^item> \<open>runButton\<close>: the \<open>textContent\<close> of the element matching \<open>.run-button\<close>, if any;
  \<^item> \<open>storedSoundSettings\<close>: the result of the storage read;
  \<^item> \<open>responseContainers\<close>: the message containers in document order, each given by the
    text length of its content region (\<open>ms-cmark-node\<close>) when it has one;
  \<^item> \<open>nowSample\<close>, \<open>nowCheck\<close>: the readings of \<open>Date.now()\<close> where the stability timer
    is started and where the completion condition is tested.
\<close>

record tick_input =
  runButton :: "string option"
  storedSoundSettings :: storage_read
  responseContainers :: "nat option list"
  nowSample :: int
  nowCheck :: int

text \<open>A tick either returns, having called \<open>playCompletionSound\<close> with the listed
  settings, or its promise is rejected. A tick is taken as one step: the storage read it
  awaits on entering GENERATING is over before the interval fires again.\<close>

datatype outcome = Rejected | Returned "sound_settings list"

definition defaultSoundSettings :: sound_settings where
  "defaultSoundSettings = \<lparr>enabled = False, sound = ''complete1'', volume = 1 / 2\<rparr>"

text \<open>\<open>responseContainers[responseContainers.length - 1]\<close> and the length read from
  it: \<open>None\<close> when there is no message container, otherwise the text length of the content
  region, \<open>0\<close> when the container has none.\<close>

definition observedLength :: "tick_input \<Rightarrow> int option" where
  "observedLength inp =
     (if responseContainers inp = [] then None
      else Some (case last (responseContainers inp) of None \<Rightarrow> 0 | Some n \<Rightarrow> int n))"

text \<open>The stability update of a tick in GENERATING.\<close>

definition sampleStability :: "watcher \<Rightarrow> tick_input \<Rightarrow> watcher" where
  "sampleStability w inp =
     (case observedLength inp of
        None \<Rightarrow> w
      | Some currentLength \<Rightarrow>
          if currentLength > lastContentLength w
          then w\<lparr>stableSince := None, lastContentLength := currentLength\<rparr>
          else if stableSince w = None
          then w\<lparr>stableSince := Some (nowSample inp)\<rparr>
          else w)"

text \<open>JavaScript truthiness of \<open>watcherSystem.stableSince\<close>: null and the number \<open>0\<close> are
  falsy.\<close>

definition truthy :: "int option \<Rightarrow> bool" where
  "truthy v = (case v of None \<Rightarrow> False | Some t \<Rightarrow> t \<noteq> 0)"

text \<open>\<open>Date.now() - watcherSystem.stableSince\<close>; the subtraction coerces null to
  \<open>0\<close>.\<close>

definition elapsedSince :: "int \<Rightarrow> int option \<Rightarrow> int" where
  "elapsedSince now v = (case v of None \<Rightarrow> now | Some t \<Rightarrow> now - t)"

definition completionSounds :: "watcher \<Rightarrow> sound_settings list" where
  "completionSounds w =
     (case soundSettings w of
        None \<Rightarrow> []
      | Some s \<Rightarrow> if enabled s then [s] else [])"

definition watcherTick :: "watcher \<Rightarrow> tick_input \<Rightarrow> watcher \<times> outcome" where
  "watcherTick w inp =
     (case runButton inp of
        None \<Rightarrow> (w, Returned [])
      | Some label \<Rightarrow>
          (let isCurrentlyGenerating = includes_str label ''Stop'' in
           if status w = IDLE \<and> isCurrentlyGenerating then
             (let w1 = w\<lparr>status := GENERATING, lastContentLength := -1, stableSince := None\<rparr>
              in case storedSoundSettings inp of
                   StorageFails \<Rightarrow> (w1, Rejected)
                 | Stored v \<Rightarrow>
                     (w1\<lparr>soundSettings :=
                           Some (case v of None \<Rightarrow> defaultSoundSettings | Some s \<Rightarrow> s)\<rparr>,
                      Returned []))
           else if status w = GENERATING then
             (let w1 = sampleStability w inp in
              if \<not> isCurrentlyGenerating \<and> truthy (stableSince w1) \<and>
                 elapsedSince (nowCheck inp) (stableSince w1) \<ge> RESPONSE_DEBOUNCE_MS
              then (w1\<lparr>status := IDLE\<rparr>, Returned (completionSounds w1))
              else (w1, Returned []))
           else (w, Returned [])))"

text \<open>The sounds a tick played.\<close>

definition played :: "outcome \<Rightarrow> sound_settings list" where
  "played out = (case out of Rejected \<Rightarrow> [] | Returned ss \<Rightarrow> ss)"

text \<open>The interval timer runs one tick after the other; a rejected tick does not stop
  the interval.\<close>

fun runTicks :: "watcher \<Rightarrow> tick_input list \<Rightarrow> watcher \<times> sound_settings list" where
  "runTicks w [] = (w, [])"
| "runTicks w (inp # inps) =
     (let (w1, out) = watcherTick w inp;
          (w2, ss) = runTicks w1 inps
      in (w2, played out @ ss))"

text \<open>A tick input for the examples: the run control shows \<open>label\<close>, the only message
  container has a content region of \<open>n\<close> characters, every clock reading is \<open>now\<close>, and
  the stored sound settings are enabled.\<close>

definition tickAt :: "string \<Rightarrow> nat \<Rightarrow> int \<Rightarrow> tick_input" where
  "tickAt label n now =
     \<lparr>runButton = Some label,
      storedSoundSettings =
        Stored (Some \<lparr>enabled = True, sound = ''complete2'', volume = 1\<rparr>),
      responseContainers = [Some n], nowSample = now, nowCheck = now\<rparr>"

section \<open>Stream Shortener (responseShortener.js)\<close>

definition START_TAG_ESCAPED :: string where
  "START_TAG_ESCAPED = ''&lt;files&gt;''"

definition END_TAG_ESCAPED :: string where
  "END_TAG_ESCAPED = ''&lt;/files&gt;''"

definition SHORTENED_CONTENT_CLASS :: string where
  "SHORTENED_CONTENT_CLASS = ''litsync-shortened-content''"

text \<open>The text of the placeholder is Russian; it is given here by its UTF-8 bytes. The
  markers are ASCII, so searching for them and cutting the markup at the positions found
  does not depend on how the other characters are encoded.\<close>

definition placeholderText :: string where
  "placeholderText =
     [CHR 0xD0, CHR 0x9A, CHR 0xD0, CHR 0xBE, CHR 0xD0, CHR 0xB4, CHR 0x20, CHR 0xD1,
      CHR 0x84, CHR 0xD0, CHR 0xB0, CHR 0xD0, CHR 0xB9, CHR 0xD0, CHR 0xBB, CHR 0xD0,
      CHR 0xBE, CHR 0xD0, CHR 0xB2, CHR 0x20, CHR 0xD0, CHR 0xBF, CHR 0xD1, CHR 0x80,
      CHR 0xD0, CHR 0xBE, CHR 0xD0, CHR 0xB5, CHR 0xD0, CHR 0xBA, CHR 0xD1, CHR 0x82,
      CHR 0xD0, CHR 0xB0, CHR 0x20, CHR 0xD1, CHR 0x81, CHR 0xD0, CHR 0xBE, CHR 0xD0,
      CHR 0xBA, CHR 0xD1, CHR 0x80, CHR 0xD0, CHR 0xB0, CHR 0xD1, CHR 0x89, CHR 0xD0,
      CHR 0xB5, CHR 0xD0, CHR 0xBD, CHR 0x20, CHR 0xD0, CHR 0xB4, CHR 0xD0, CHR 0xBB,
      CHR 0xD1, CHR 0x8F, CHR 0x20, CHR 0xD1, CHR 0x83, CHR 0xD0, CHR 0xB4, CHR 0xD0,
      CHR 0xBE, CHR 0xD0, CHR 0xB1, CHR 0xD1, CHR 0x81, CHR 0xD1, CHR 0x82, CHR 0xD0,
      CHR 0xB2, CHR 0xD0, CHR 0xB0, CHR 0x2E]"

text \<open>\<open>createShortenedPlaceholder().outerHTML\<close>: a \<open>div\<close> of class
  \<open>litsync-shortened-content\<close> holding an empty \<open>div\<close> of class \<open>litsync-spinner\<close>
  followed by the text.\<close>

definition createShortenedPlaceholder :: string where
  "createShortenedPlaceholder =
     ''<div class='' @ [CHR 0x22] @ SHORTENED_CONTENT_CLASS @ [CHR 0x22] @ ''>'' @
     ''<div class='' @ [CHR 0x22] @ ''litsync-spinner'' @ [CHR 0x22] @ ''></div>'' @
     placeholderText @ ''</div>''"

text \<open>What the extension does to the page and to the browser's timers, in program
  order. The log is kept beside the state to state orderings; no function reads it.\<close>

datatype effect =
    ReadMarkup
  | WriteMarkup string
  | SetShortened string
  | SetHtmlBefore string
  | RemoveHtmlBefore
  | ObserverObserve
  | ObserverDisconnect
  | SetTimeout nat
  | ClearTimeout nat

text \<open>
  One message container (an element matching \<open>.chat-turn-container.model.render\<close>) with
  its content region and what the two modules keep about it:
  \<^item> \<open>processed\<close>: the container carries the class \<open>litsync-processed-v9\<close>;
  \<^item> \<open>syncButtons\<close>: the sync buttons appended to it;
  \<^item> \<open>contentArea\<close>: \<open>container.querySelector('ms-cmark-node')\<close> is not null;
  \<^item> \<open>litsyncShortenInit\<close>: \<open>container.dataset.litsyncShortenInit\<close> is set;
  \<^item> \<open>innerHTML\<close>, \<open>litsyncShortened\<close>, \<open>litsyncHtmlBefore\<close>: the markup of the content
    region and its two data attributes;
  \<^item> \<open>observer\<close>: \<open>shortenObserverMap\<close> holds a connected observer for the container;
  \<^item> \<open>throttlePending\<close>: the \<open>timeoutId\<close> of the container's throttled handler is set;
  \<^item> \<open>debounceTimer\<close>: the entry of \<open>debounceTimerMap\<close> for the content region;
  \<^item> \<open>activeTimers\<close>: the handles of the finalize timeouts that were set for this
    content region and have neither fired nor been cleared;
  \<^item> \<open>timerSeq\<close>: the last handle issued; \<open>setTimeout\<close> returns a new positive one;
  \<^item> \<open>domLog\<close>: the effects so far.
  \<open>innerHTML\<close> is the markup a read of the property returns. The content region stays
  the one the scanner found: \<open>container.querySelector('ms-cmark-node')\<close> keeps
  returning it.
\<close>

record message =
  processed :: bool
  syncButtons :: nat
  contentArea :: bool
  litsyncShortenInit :: bool
  innerHTML :: string
  litsyncShortened :: "string option"
  litsyncHtmlBefore :: "string option"
  observer :: bool
  throttlePending :: bool
  debounceTimer :: "nat option"
  activeTimers :: "nat list"
  timerSeq :: nat
  domLog :: "effect list"

definition logEffect :: "effect \<Rightarrow> message \<Rightarrow> message" where
  "logEffect e m = m\<lparr>domLog := domLog m @ [e]\<rparr>"

text \<open>
  Assigning a string to \<open>innerHTML\<close> makes the browser parse it into the children of
  the content region; reading \<open>innerHTML\<close> serialises the children. The markup read
  after an assignment is therefore what the browser's parser and serialiser make of the
  string, not always the string: a \<open>div\<close> start tag closes an open \<open>p\<close>, an end tag
  \<open></p>\<close> without an open \<open>p\<close> adds an empty \<open>p\<close>. The browser is not part of the
  repository. The functions that write markup take it as the parameter \<open>reparse\<close>: \<open>reparse s\<close>
  is the markup read back after \<open>s\<close> has been assigned.
\<close>

type_synonym browser = "string \<Rightarrow> string"

text \<open>Writing the markup of the content region changes its children. A connected
  observer is notified and calls the throttled handler, which sets its timeout unless one
  is pending.\<close>

definition setInnerHTML :: "browser \<Rightarrow> string \<Rightarrow> message \<Rightarrow> message" where
  "setInnerHTML reparse s m =
     logEffect (WriteMarkup s)
       (m\<lparr>innerHTML := reparse s, throttlePending := (throttlePending m \<or> observer m)\<rparr>)"

definition setTimeout :: "message \<Rightarrow> nat \<times> message" where
  "setTimeout m =
     (let t = Suc (timerSeq m)
      in (t, logEffect (SetTimeout t)
               (m\<lparr>timerSeq := t, activeTimers := activeTimers m @ [t]\<rparr>)))"

definition clearTimeout :: "nat \<Rightarrow> message \<Rightarrow> message" where
  "clearTimeout t m =
     logEffect (ClearTimeout t) (m\<lparr>activeTimers := removeAll t (activeTimers m)\<rparr>)"

text \<open>\<open>cleanupShorteningForContainer(container)\<close>. A timer handle is tested for
  truthiness: the handle \<open>0\<close> would be skipped.\<close>

definition cleanupShorteningForContainer :: "message \<Rightarrow> message" where
  "cleanupShorteningForContainer m =
     (let m1 = (if observer m then logEffect ObserverDisconnect (m\<lparr>observer := False\<rparr>)
                else m)
      in if contentArea m1 then
           (case debounceTimer m1 of
              None \<Rightarrow> m1
            | Some timer \<Rightarrow>
                if timer \<noteq> 0 then (clearTimeout timer m1)\<lparr>debounceTimer := None\<rparr> else m1)
         else m1)"

text \<open>The callback of the finalize timeout. \<open>container\<close> tells whether
  \<open>contentArea.closest('.chat-turn-container.model.render')\<close> found the container.
  \<open>dataset.litsyncHtmlBefore || ''\<close> is the empty string when the attribute is missing.\<close>

definition finalizeCallback :: "browser \<Rightarrow> bool \<Rightarrow> message \<Rightarrow> message" where
  "finalizeCallback reparse container m =
     (let finalHtmlContent = innerHTML m;
          m0 = logEffect ReadMarkup m;
          finalEndIndex = indexOf finalHtmlContent END_TAG_ESCAPED
      in if finalEndIndex = -1 then m0
         else
           (let m1 = (if container then cleanupShorteningForContainer m0 else m0);
                htmlBefore = (case litsyncHtmlBefore m1 of None \<Rightarrow> [] | Some p \<Rightarrow> p);
                htmlAfter = substringFrom finalHtmlContent
                              (finalEndIndex + int (length END_TAG_ESCAPED));
                m2 = setInnerHTML reparse (htmlBefore @ createShortenedPlaceholder @ htmlAfter) m1;
                m3 = logEffect (SetShortened ''final'') (m2\<lparr>litsyncShortened := Some ''final''\<rparr>);
                m4 = logEffect RemoveHtmlBefore (m3\<lparr>litsyncHtmlBefore := None\<rparr>)
            in m4\<lparr>debounceTimer := None\<rparr>))"

definition processShorteningForContainer :: "browser \<Rightarrow> message \<Rightarrow> message" where
  "processShorteningForContainer reparse m =
     (if \<not> contentArea m then m
      else
        (let currentState = litsyncShortened m in
         if currentState = Some ''final'' then m
         else
           (let fullHtml = innerHTML m;
                m0 = logEffect ReadMarkup m
            in if currentState = Some ''streaming'' then
                 (if includes_str fullHtml END_TAG_ESCAPED then
                    (let m1 = (case debounceTimer m0 of
                                 None \<Rightarrow> m0
                               | Some existingTimer \<Rightarrow>
                                   if existingTimer \<noteq> 0 then clearTimeout existingTimer m0
                                   else m0);
                         (newTimer, m2) = setTimeout m1
                     in m2\<lparr>debounceTimer := Some newTimer\<rparr>)
                  else m0)
               else
                 (let startIndex = indexOf fullHtml START_TAG_ESCAPED in
                  if startIndex > -1 then
                    (let htmlBefore = substring fullHtml 0 startIndex;
                         m1 = logEffect (SetHtmlBefore htmlBefore)
                                (m0\<lparr>litsyncHtmlBefore := Some htmlBefore\<rparr>);
                         m2 = setInnerHTML reparse (htmlBefore @ createShortenedPlaceholder) m1
                     in logEffect (SetShortened ''streaming'')
                          (m2\<lparr>litsyncShortened := Some ''streaming''\<rparr>))
                  else m0))))"

text \<open>\<open>initializeShorteningForContainer(container, contentArea)\<close>, called with the
  container and the result of \<open>container.querySelector('ms-cmark-node')\<close>. The call of
  the throttled handler at its end sets the handler's timeout.\<close>

definition initializeShorteningForContainer :: "message \<Rightarrow> message" where
  "initializeShorteningForContainer m =
     (if \<not> contentArea m \<or> litsyncShortenInit m then m
      else logEffect ObserverObserve
             (m\<lparr>litsyncShortenInit := True, observer := True, throttlePending := True\<rparr>))"

subsection \<open>What can happen to one message\<close>

text \<open>
  \<^item> \<open>HostMutation s\<close>: the page changes the children of the content region, whose
    markup then reads \<open>s\<close>;
  \<^item> \<open>ThrottleFires\<close>: the timeout of the throttled handler fires and runs
    \<open>processShorteningForContainer\<close>;
  \<^item> \<open>TimerFires t c\<close>: the finalize timeout with handle \<open>t\<close> fires (a handle that is
    not active cannot fire); \<open>c\<close> is the result of the \<open>closest\<close> lookup;
  \<^item> \<open>Teardown\<close>: \<open>cleanupShorteningForContainer\<close> is called for the container;
  \<^item> \<open>Wire\<close>: \<open>initializeShorteningForContainer\<close> is called for the container.
\<close>

datatype event =
    HostMutation string
  | ThrottleFires
  | TimerFires nat bool
  | Teardown
  | Wire

definition hostMutation :: "string \<Rightarrow> message \<Rightarrow> message" where
  "hostMutation s m = m\<lparr>innerHTML := s, throttlePending := (throttlePending m \<or> observer m)\<rparr>"

definition throttleFires :: "browser \<Rightarrow> message \<Rightarrow> message" where
  "throttleFires reparse m =
     (if throttlePending m
      then processShorteningForContainer reparse (m\<lparr>throttlePending := False\<rparr>)
      else m)"

definition timerFires :: "browser \<Rightarrow> nat \<Rightarrow> bool \<Rightarrow> message \<Rightarrow> message" where
  "timerFires reparse t c m =
     (if t \<in> set (activeTimers m)
      then finalizeCallback reparse c (m\<lparr>activeTimers := removeAll t (activeTimers m)\<rparr>)
      else m)"

fun step :: "browser \<Rightarrow> event \<Rightarrow> message \<Rightarrow> message" where
  "step reparse (HostMutation s) m = hostMutation s m"
| "step reparse ThrottleFires m = throttleFires reparse m"
| "step reparse (TimerFires t c) m = timerFires reparse t c m"
| "step reparse Teardown m = cleanupShorteningForContainer m"
| "step reparse Wire m = initializeShorteningForContainer m"

fun run :: "browser \<Rightarrow> event list \<Rightarrow> message \<Rightarrow> message" where
  "run reparse [] m = m"
| "run reparse (e # es) m = run reparse es (step reparse e m)"

text \<open>The assignments to \<open>innerHTML\<close> in a log, and the number of STREAMING \<open>\<rightarrow>\<close> FINAL
  transitions in it: each one sets the state attribute to \<open>final\<close>.\<close>

definition isWrite :: "effect \<Rightarrow> bool" where
  "isWrite e = (case e of WriteMarkup s \<Rightarrow> True | _ \<Rightarrow> False)"

definition finalTransitions :: "effect list \<Rightarrow> nat" where
  "finalTransitions es = length (filter (\<lambda>e. e = SetShortened ''final'') es)"

text \<open>A content region as the page first shows it, with the given markup.\<close>

definition freshMessage :: "string \<Rightarrow> message" where
  "freshMessage s =
     \<lparr>processed = False, syncButtons = 0, contentArea = True, litsyncShortenInit = False,
      innerHTML = s, litsyncShortened = None, litsyncHtmlBefore = None, observer = False,
      throttlePending = False, debounceTimer = None, activeTimers = [], timerSeq = 0,
      domLog = []\<rparr>"

text \<open>Every active finalize timeout is the one recorded in \<open>debounceTimerMap\<close>, and
  its handle is one the browser has issued.\<close>

definition timers_ok :: "message \<Rightarrow> bool" where
  "timers_ok m =
     (distinct (activeTimers m) \<and>
      list_all (\<lambda>t. t \<noteq> 0 \<and> t \<le> timerSeq m \<and> debounceTimer m = Some t)
        (activeTimers m))"

section \<open>Periodic scanner and lifecycle (content.js)\<close>

text \<open>The message containers of the document in document order, the global
  \<open>isShortenEnabled\<close>, and whether the scanner interval (\<open>domScannerInterval\<close>) runs.
  The prompt wrappers the scanner also decorates share nothing with the shortener and are
  left out.\<close>

record world =
  messages :: "message list"
  isShortenEnabled :: bool
  domScannerInterval :: bool

definition initialWorld :: world where
  "initialWorld = \<lparr>messages = [], isShortenEnabled = False, domScannerInterval = False\<rparr>"

text \<open>The body of the first \<open>forEach\<close> of \<open>scanAndProcessMessages\<close>; the selector
  skips the containers that carry the processed marker.\<close>

definition scanMessage :: "bool \<Rightarrow> message \<Rightarrow> message" where
  "scanMessage shortenEnabled container =
     (if processed container then container
      else
        (let c1 = container\<lparr>processed := True, syncButtons := Suc (syncButtons container)\<rparr>
         in if shortenEnabled then
              (if contentArea c1 then initializeShorteningForContainer c1 else c1)
            else c1))"

definition scanAndProcessMessages :: "world \<Rightarrow> world" where
  "scanAndProcessMessages w =
     w\<lparr>messages := map (scanMessage (isShortenEnabled w)) (messages w)\<rparr>"

text \<open>\<open>initialize()\<close>; the argument is the stored \<open>isShortenEnabled\<close> it reads.\<close>

definition initialize :: "bool \<Rightarrow> world \<Rightarrow> world" where
  "initialize storedShorten w =
     (if domScannerInterval w then w
      else w\<lparr>isShortenEnabled := storedShorten, domScannerInterval := True\<rparr>)"

text \<open>\<open>dismantle()\<close>: stops the scanner, tears every shortener down, removes the
  buttons and strips the processed marker.\<close>

definition dismantle :: "world \<Rightarrow> world" where
  "dismantle w =
     w\<lparr>domScannerInterval := False,
       messages :=
         map (\<lambda>container. (cleanupShorteningForContainer container)
                              \<lparr>syncButtons := 0, processed := False\<rparr>)
             (messages w)\<rparr>"

text \<open>The branch of the \<open>chrome.storage.onChanged\<close> listener for \<open>isShortenEnabled\<close>;
  the argument is \<open>!!newValue\<close>.\<close>

definition onShortenChanged :: "bool \<Rightarrow> world \<Rightarrow> world" where
  "onShortenChanged newValue w =
     (let w1 = w\<lparr>isShortenEnabled := newValue\<rparr>
      in if \<not> newValue
         then w1\<lparr>messages := map cleanupShorteningForContainer (messages w1)\<rparr>
         else w1)"

text \<open>
  \<^item> \<open>ScanTick\<close>: the scanner interval fires;
  \<^item> \<open>ShortenChanged b\<close>: the stored \<open>isShortenEnabled\<close> changes to \<open>b\<close>;
  \<^item> \<open>EnabledChanged b s\<close>: the stored \<open>isEnabled\<close> changes to \<open>b\<close> (\<open>s\<close> is the stored
    \<open>isShortenEnabled\<close> that \<open>initialize\<close> reads);
  \<^item> \<open>NewMessage s c\<close>: the page appends a message container with markup \<open>s\<close>, with a
    content region or without;
  \<^item> \<open>OnMessage i e\<close>: a page mutation or a timeout of the \<open>i\<close>-th message.
\<close>

datatype world_event =
    ScanTick
  | ShortenChanged bool
  | EnabledChanged bool bool
  | NewMessage string bool
  | OnMessage nat event

fun worldStep :: "browser \<Rightarrow> world_event \<Rightarrow> world \<Rightarrow> world" where
  "worldStep reparse ScanTick w =
     (if domScannerInterval w then scanAndProcessMessages w else w)"
| "worldStep reparse (ShortenChanged b) w = onShortenChanged b w"
| "worldStep reparse (EnabledChanged b s) w = (if b then initialize s w else dismantle w)"
| "worldStep reparse (NewMessage s c) w =
     w\<lparr>messages := messages w @ [(freshMessage s)\<lparr>contentArea := c\<rparr>]\<rparr>"
| "worldStep reparse (OnMessage i e) w =
     (if i < length (messages w) \<and> e \<noteq> Wire \<and> e \<noteq> Teardown
      then w\<lparr>messages := (messages w)[i := step reparse e (messages w ! i)]\<rparr>
      else w)"

fun worldRun :: "browser \<Rightarrow> world_event list \<Rightarrow> world \<Rightarrow> world" where
  "worldRun reparse [] w = w"
| "worldRun reparse (e # es) w = worldRun reparse es (worldStep reparse e w)"

text \<open>No event of the list switches the extension off.\<close>

definition noDismantle :: "world_event list \<Rightarrow> bool" where
  "noDismantle es = list_all (\<lambda>e. case e of EnabledChanged b s \<Rightarrow> b | _ \<Rightarrow> True) es"

section \<open>Example inputs and invariants\<close>

text \<open>
  The browser of the examples. It gives what an HTML parser and serialiser return for the
  two strings with an unbalanced \<open>p\<close> that the examples assign: the \<open>div\<close> of the
  placeholder closes the open \<open>p\<close>, and the end tag \<open></p>\<close> that follows, finding no open
  \<open>p\<close>, adds an empty one. Every other string the examples assign is balanced markup and
  is read back as it was assigned.
\<close>

definition exampleBrowser :: browser where
  "exampleBrowser s =
     (if s = ''<p>Intro '' @ createShortenedPlaceholder
      then ''<p>Intro </p>'' @ createShortenedPlaceholder
      else if s = ''<p>Intro '' @ createShortenedPlaceholder @ '' tail</p>''
      then ''<p>Intro </p>'' @ createShortenedPlaceholder @ '' tail<p></p>''
      else s)"

text \<open>A watcher in GENERATING whose content has been stable since 1600, with sound enabled.\<close>

definition stableWatcher :: watcher where
  "stableWatcher =
     \<lparr>intervalId = Some 1, status = GENERATING, lastContentLength = 10,
      stableSince = Some 1600,
      soundSettings = Some \<lparr>enabled = True, sound = ''complete2'', volume = 1\<rparr>\<rparr>"

text \<open>A watcher that has just entered GENERATING.\<close>

definition startedWatcher :: watcher where
  "startedWatcher = watcherSystem\<lparr>status := GENERATING\<rparr>"

text \<open>Ticks during a generation: one that finds no message container, one whose most
  recent message container has no content region, one that finds no run control while
  the content region holds 20 characters, and one whose storage read rejects.\<close>

definition noContainerTick :: tick_input where
  "noContainerTick =
     \<lparr>runButton = Some ''Stop'', storedSoundSettings = Stored None,
      responseContainers = [], nowSample = 1300, nowCheck = 1300\<rparr>"

definition noRegionTick :: tick_input where
  "noRegionTick =
     \<lparr>runButton = Some ''Stop'', storedSoundSettings = Stored None,
      responseContainers = [Some 7, None], nowSample = 1300, nowCheck = 1300\<rparr>"

definition noButtonTick :: tick_input where
  "noButtonTick =
     \<lparr>runButton = None, storedSoundSettings = Stored None,
      responseContainers = [Some 20], nowSample = 1900, nowCheck = 1900\<rparr>"

definition rejectedReadTick :: tick_input where
  "rejectedReadTick =
     \<lparr>runButton = Some ''Stop'', storedSoundSettings = StorageFails,
      responseContainers = [Some 10], nowSample = 5000, nowCheck = 5000\<rparr>"

text \<open>A generation that starts, grows to 10 characters, stays there and completes; and one
  whose content region shrinks from 10 to 5 characters.\<close>

definition completedRun :: "tick_input list" where
  "completedRun =
     [tickAt ''Stop'' 0 1000, tickAt ''Stop'' 10 1300, tickAt ''Run'' 10 1600,
      tickAt ''Run'' 10 2800]"

definition shrinkingRun :: "tick_input list" where
  "shrinkingRun = [tickAt ''Stop'' 0 1000, tickAt ''Stop'' 10 1300, tickAt ''Stop'' 5 1600]"

text \<open>A set stability timer implies that a content length has been recorded.\<close>

definition recorded :: "watcher \<Rightarrow> bool" where
  "recorded w = (stableSince w \<noteq> None \<longrightarrow> 0 \<le> lastContentLength w)"

text \<open>The markup of the example, and an earlier stage of the same answer in which the
  end marker has not arrived yet.\<close>

definition exampleMarkup :: string where
  "exampleMarkup = ''<p>A</p>&lt;files&gt;BIGBLOB&lt;/files&gt;<p>Z</p>''"

definition partialMarkup :: string where
  "partialMarkup = ''<p>A</p>&lt;files&gt;BIG''"

text \<open>A message that was wired and processed while it showed the earlier stage, then
  rewritten by the page to the full markup and processed again: it is in the streaming
  phase and one finalize timeout is pending.\<close>

definition streamingExample :: message where
  "streamingExample =
     run exampleBrowser [Wire, ThrottleFires, HostMutation exampleMarkup, ThrottleFires]
       (freshMessage partialMarkup)"

text \<open>The same message after the page has taken part of the end marker back.\<close>

definition vanishedExample :: message where
  "vanishedExample = step exampleBrowser (HostMutation ''<p>A</p>&lt;files&gt;BIGBLOB&lt;/fil'') streamingExample"




text \<open>The message is in the final phase and no finalize timeout is active.\<close>

definition finished :: "message \<Rightarrow> bool" where
  "finished m = (litsyncShortened m = Some ''final'' \<and> activeTimers m = [])"

text \<open>The container carries the processed marker and has never been wired.\<close>

definition unwired :: "message \<Rightarrow> bool" where
  "unwired m = (processed m \<and> \<not> litsyncShortenInit m \<and> \<not> observer m)"

text \<open>A container is scanned while shortening is off; shortening is switched on; the
  extension is switched off and on again; the scanner runs.\<close>

definition scannedWhileDisabled :: "world_event list" where
  "scannedWhileDisabled =
     [EnabledChanged True False, NewMessage partialMarkup True, ScanTick]"

definition reEnabled :: "world_event list" where
  "reEnabled =
     [ShortenChanged True, EnabledChanged False True, EnabledChanged True True, ScanTick]"

section \<open>Properties of the Generation Watcher\<close>

lemma includes_Stop_Stop: "includes_str ''Stop'' ''Stop''"
  by (simp add: includes_str_def)

lemma includes_Run_Stop: "\<not> includes_str ''Run'' ''Stop''"
  by (simp add: includes_str_def)

lemma idle_quiet_tick:
  assumes "status w = IDLE"
    and "\<forall>l. runButton i = Some l \<longrightarrow> \<not> includes_str l ''Stop''"
  shows "watcherTick w i = (w, Returned [])"
  using assms by (cases "runButton i") (simp_all add: watcherTick_def)

lemma idle_quiet_run:
  assumes "status w = IDLE"
    and "\<forall>i\<in>set inps. \<forall>l. runButton i = Some l \<longrightarrow> \<not> includes_str l ''Stop''"
  shows "runTicks w inps = (w, [])"
  using assms
proof (induction inps)
  case Nil
  then show ?case by simp
next
  case (Cons i inps)
  then have "watcherTick w i = (w, Returned [])"
    by (intro idle_quiet_tick) simp_all
  with Cons show ?case by (simp add: played_def)
qed

lemma idle_tick_silent:
  assumes "status w = IDLE"
  shows "played (snd (watcherTick w inp)) = []"
  using assms
  by (auto simp: watcherTick_def played_def Let_def split: option.splits storage_read.splits)

lemma sample_stableSince_nonzero:
  assumes "stableSince w \<noteq> Some 0" and "nowSample inp \<noteq> 0"
  shows "stableSince (sampleStability w inp) \<noteq> Some 0"
  using assms by (auto simp: sampleStability_def split: option.splits)

lemma generating_tick_unfold:
  assumes "status w = GENERATING" and "runButton inp = Some label"
  shows "watcherTick w inp =
           (if \<not> includes_str label ''Stop'' \<and> truthy (stableSince (sampleStability w inp)) \<and>
               elapsedSince (nowCheck inp) (stableSince (sampleStability w inp)) \<ge> 1200
            then ((sampleStability w inp)\<lparr>status := IDLE\<rparr>,
                  Returned (completionSounds (sampleStability w inp)))
            else (sampleStability w inp, Returned []))"
  using assms by (simp add: watcherTick_def Let_def RESPONSE_DEBOUNCE_MS_def)

lemma sample_status: "status (sampleStability w inp) = status w"
  by (auto simp: sampleStability_def split: option.splits)

lemma completionSounds_le: "length (completionSounds w) \<le> 1"
  by (simp add: completionSounds_def split: option.splits)

text \<open>When the storage read resolves, a tick that finds the watcher in IDLE while the
  label of the run control contains \<open>Stop\<close> makes the status GENERATING, resets
  \<open>lastContentLength\<close> and \<open>stableSince\<close>, and takes the stored sound settings or, when
  nothing is stored, disabled / \<open>complete1\<close> / 0.5. It neither samples nor tests for
  completion.\<close>

lemma idle_to_generating_resolved:
  assumes "status w = IDLE" and "runButton inp = Some label"
    and "includes_str label ''Stop''" and "storedSoundSettings inp = Stored v"
  shows "watcherTick w inp =
           (w\<lparr>status := GENERATING, lastContentLength := -1, stableSince := None,
              soundSettings :=
                Some (case v of
                        None \<Rightarrow> \<lparr>enabled = False, sound = ''complete1'', volume = 1 / 2\<rparr>
                      | Some s \<Rightarrow> s)\<rparr>,
            Returned [])"
  using assms
  by (simp add: watcherTick_def defaultSoundSettings_def split: option.splits)

text \<open>
  C4, as the code has it. The claim that every tick in GENERATING samples fails for a
  tick that finds no message container or no run control. Right after the watcher has
  entered GENERATING, a tick without any message container leaves \<open>lastContentLength\<close> at
  \<open>-1\<close>, where a length treated as \<open>0\<close> would have been recorded. A tick without run
  control, while the content region has grown from 10 to 20 characters, leaves
  \<open>lastContentLength\<close> and \<open>stableSince\<close> as they were.
\<close>

theorem tick_without_anchor_samples_nothing:
  "status startedWatcher = GENERATING \<and> lastContentLength startedWatcher = -1 \<and>
   runButton noContainerTick = Some ''Stop'' \<and> responseContainers noContainerTick = [] \<and>
   lastContentLength (fst (watcherTick startedWatcher noContainerTick)) = -1 \<and>
   status stableWatcher = GENERATING \<and> lastContentLength stableWatcher = 10 \<and>
   stableSince stableWatcher = Some 1600 \<and>
   runButton noButtonTick = None \<and> responseContainers noButtonTick = [Some 20] \<and>
   lastContentLength (fst (watcherTick stableWatcher noButtonTick)) = 10 \<and>
   stableSince (fst (watcherTick stableWatcher noButtonTick)) = Some 1600"
  by (simp add: startedWatcher_def watcherSystem_def noContainerTick_def noButtonTick_def
        stableWatcher_def watcherTick_def sampleStability_def observedLength_def
        includes_Stop_Stop truthy_def)

text \<open>
  C4, amended. On a tick in GENERATING that finds the run control and at least one
  message container, let the observed length be \<open>0\<close> when the most recent container has
  no content region and the text length of that region otherwise. When the observed
  length is greater than \<open>lastContentLength\<close>, \<open>stableSince\<close> is cleared and
  \<open>lastContentLength\<close> becomes the observed length; otherwise \<open>lastContentLength\<close> stays,
  a null \<open>stableSince\<close> becomes the clock reading and a set one is left as it is. A tick
  that finds no run control or no message container leaves both as they are.
\<close>

theorem generating_tick_sampling:
  assumes "status w = GENERATING"
  shows "(runButton inp = Some label \<and> responseContainers inp \<noteq> [] \<and>
          currentLength = (case last (responseContainers inp) of
                             None \<Rightarrow> 0
                           | Some n \<Rightarrow> int n) \<longrightarrow>
            (currentLength > lastContentLength w \<longrightarrow>
               stableSince (fst (watcherTick w inp)) = None \<and>
               lastContentLength (fst (watcherTick w inp)) = currentLength) \<and>
            (\<not> currentLength > lastContentLength w \<longrightarrow>
               lastContentLength (fst (watcherTick w inp)) = lastContentLength w \<and>
               (stableSince w = None \<longrightarrow>
                  stableSince (fst (watcherTick w inp)) = Some (nowSample inp)) \<and>
               (stableSince w \<noteq> None \<longrightarrow>
                  stableSince (fst (watcherTick w inp)) = stableSince w))) \<and>
         (runButton inp = None \<or> responseContainers inp = [] \<longrightarrow>
            lastContentLength (fst (watcherTick w inp)) = lastContentLength w \<and>
            stableSince (fst (watcherTick w inp)) = stableSince w)"
  using assms
  by (auto simp: watcherTick_def sampleStability_def observedLength_def Let_def
           split: if_splits option.splits)

theorem generating_tick_sampling_witness:
  "status startedWatcher = GENERATING \<and>
   runButton noRegionTick = Some ''Stop'' \<and> responseContainers noRegionTick \<noteq> [] \<and>
   last (responseContainers noRegionTick) = None \<and>
   (0::int) > lastContentLength startedWatcher \<and>
   stableSince (fst (watcherTick startedWatcher noRegionTick)) = None \<and>
   lastContentLength (fst (watcherTick startedWatcher noRegionTick)) = 0 \<and>
   responseContainers noContainerTick = [] \<and>
   lastContentLength (fst (watcherTick startedWatcher noContainerTick)) =
     lastContentLength startedWatcher \<and>
   stableSince (fst (watcherTick startedWatcher noContainerTick)) = stableSince startedWatcher"
proof -
  have h1: "status startedWatcher = GENERATING"
    by (simp add: startedWatcher_def)
  have h2: "runButton noRegionTick = Some ''Stop''" "responseContainers noRegionTick \<noteq> []"
    "last (responseContainers noRegionTick) = None"
    by (simp_all add: noRegionTick_def)
  have h3: "(0::int) = (case last (responseContainers noRegionTick) of
                          None \<Rightarrow> 0
                        | Some n \<Rightarrow> int n)"
    by (simp add: noRegionTick_def)
  have h4: "(0::int) > lastContentLength startedWatcher"
    by (simp add: startedWatcher_def watcherSystem_def)
  have h5: "responseContainers noContainerTick = []"
    by (simp add: noContainerTick_def)
  from generating_tick_sampling
         [OF h1, where inp = noRegionTick and label = "''Stop''" and currentLength = 0]
    h2 h3 h4
  have a: "stableSince (fst (watcherTick startedWatcher noRegionTick)) = None"
    "lastContentLength (fst (watcherTick startedWatcher noRegionTick)) = 0"
    by blast+
  from generating_tick_sampling [OF h1, where inp = noContainerTick] h5
  have b: "lastContentLength (fst (watcherTick startedWatcher noContainerTick)) =
     lastContentLength startedWatcher"
    "stableSince (fst (watcherTick startedWatcher noContainerTick)) = stableSince startedWatcher"
    by blast+
  from h1 h2 h4 h5 a b show ?thesis by blast
qed

text \<open>
  C1. For a tick in GENERATING that finds the run control, with clock readings of
  \<open>Date.now()\<close> different from \<open>0\<close>: the watcher goes to IDLE exactly when the label does not
  contain \<open>Stop\<close> and \<open>stableSince\<close>, as the tick's own sampling leaves it, is set and at
  least 1200 ms older than the clock. A tick plays at most one sound, and only when it
  makes this transition; a tick that starts in IDLE plays none. After the transition, any
  number of ticks whose label does not contain \<open>Stop\<close> leave the state as it is and
  play nothing.
\<close>

theorem completion_edge_triggered:
  assumes "status w = GENERATING" and "runButton inp = Some label"
    and "stableSince w \<noteq> Some 0" and "nowSample inp \<noteq> 0"
  shows "((status (fst (watcherTick w inp)) = IDLE) =
            (\<not> includes_str label ''Stop'' \<and>
             (\<exists>t. stableSince (fst (watcherTick w inp)) = Some t \<and>
                  nowCheck inp - t \<ge> 1200))) \<and>
         length (played (snd (watcherTick w inp))) \<le> 1 \<and>
         (played (snd (watcherTick w inp)) \<noteq> [] \<longrightarrow>
            status (fst (watcherTick w inp)) = IDLE) \<and>
         (status (fst (watcherTick w inp)) = IDLE \<longrightarrow>
            (\<forall>inps. (\<forall>i\<in>set inps. \<forall>l. runButton i = Some l \<longrightarrow> \<not> includes_str l ''Stop'') \<longrightarrow>
                    runTicks (fst (watcherTick w inp)) inps = (fst (watcherTick w inp), []))) \<and>
         (status w0 = IDLE \<longrightarrow> played (snd (watcherTick w0 inp0)) = [])"
proof -
  let ?s = "sampleStability w inp"
  have nz: "stableSince ?s \<noteq> Some 0"
    using assms(3,4) by (rule sample_stableSince_nonzero)
  have st: "status ?s = GENERATING"
    using assms(1) by (simp add: sample_status)
  have tr: "truthy (stableSince ?s) = (\<exists>t. stableSince ?s = Some t)"
    using nz by (cases "stableSince ?s") (simp_all add: truthy_def)
  have el: "\<And>t. stableSince ?s = Some t \<Longrightarrow>
              elapsedSince (nowCheck inp) (stableSince ?s) = nowCheck inp - t"
    by (simp add: elapsedSince_def)
  note u = generating_tick_unfold [OF assms(1,2)]
  have a: "(status (fst (watcherTick w inp)) = IDLE) =
            (\<not> includes_str label ''Stop'' \<and>
             (\<exists>t. stableSince (fst (watcherTick w inp)) = Some t \<and> nowCheck inp - t \<ge> 1200))"
    unfolding u using st tr el by auto
  have b: "length (played (snd (watcherTick w inp))) \<le> 1"
    unfolding u using completionSounds_le [of ?s] by (simp add: played_def)
  have c: "played (snd (watcherTick w inp)) \<noteq> [] \<longrightarrow> status (fst (watcherTick w inp)) = IDLE"
    unfolding u by (simp add: played_def)
  have d: "status (fst (watcherTick w inp)) = IDLE \<longrightarrow>
            (\<forall>inps. (\<forall>i\<in>set inps. \<forall>l. runButton i = Some l \<longrightarrow> \<not> includes_str l ''Stop'') \<longrightarrow>
                    runTicks (fst (watcherTick w inp)) inps = (fst (watcherTick w inp), []))"
    using idle_quiet_run by blast
  have e: "status w0 = IDLE \<longrightarrow> played (snd (watcherTick w0 inp0)) = []"
    by (rule impI) (rule idle_tick_silent)
  from a b c d e show ?thesis by blast
qed

lemma stableWatcher_tick:
  "watcherTick stableWatcher (tickAt ''Run'' 10 2800) =
     (stableWatcher\<lparr>status := IDLE\<rparr>,
      Returned [\<lparr>enabled = True, sound = ''complete2'', volume = 1\<rparr>])"
  by (simp add: watcherTick_def stableWatcher_def tickAt_def includes_Run_Stop
        sampleStability_def observedLength_def truthy_def elapsedSince_def
        RESPONSE_DEBOUNCE_MS_def completionSounds_def)

theorem completion_edge_triggered_witness:
  "status stableWatcher = GENERATING \<and>
   runButton (tickAt ''Run'' 10 2800) = Some ''Run'' \<and>
   stableSince stableWatcher \<noteq> Some 0 \<and> nowSample (tickAt ''Run'' 10 2800) \<noteq> 0 \<and>
   status (fst (watcherTick stableWatcher (tickAt ''Run'' 10 2800))) = IDLE \<and>
   played (snd (watcherTick stableWatcher (tickAt ''Run'' 10 2800))) =
     [\<lparr>enabled = True, sound = ''complete2'', volume = 1\<rparr>] \<and>
   runTicks (fst (watcherTick stableWatcher (tickAt ''Run'' 10 2800)))
     [tickAt ''Run'' 10 3100, tickAt ''Run'' 10 3400, tickAt ''Run'' 10 3700] =
     (fst (watcherTick stableWatcher (tickAt ''Run'' 10 2800)), [])"
proof -
  have h1: "status stableWatcher = GENERATING" by (simp add: stableWatcher_def)
  have h2: "runButton (tickAt ''Run'' 10 2800) = Some ''Run''" by (simp add: tickAt_def)
  have h3: "stableSince stableWatcher \<noteq> Some 0" by (simp add: stableWatcher_def)
  have h4: "nowSample (tickAt ''Run'' 10 2800) \<noteq> 0" by (simp add: tickAt_def)
  have q: "\<forall>i\<in>set [tickAt ''Run'' 10 3100, tickAt ''Run'' 10 3400, tickAt ''Run'' 10 3700].
             \<forall>l. runButton i = Some l \<longrightarrow> \<not> includes_str l ''Stop''"
    by (simp add: tickAt_def includes_Run_Stop)
  have s: "status (fst (watcherTick stableWatcher (tickAt ''Run'' 10 2800))) = IDLE"
    by (simp add: stableWatcher_tick)
  have p: "played (snd (watcherTick stableWatcher (tickAt ''Run'' 10 2800))) =
             [\<lparr>enabled = True, sound = ''complete2'', volume = 1\<rparr>]"
    by (simp add: stableWatcher_tick played_def)
  from completion_edge_triggered [OF h1 h2 h3 h4] s q
  have "runTicks (fst (watcherTick stableWatcher (tickAt ''Run'' 10 2800)))
          [tickAt ''Run'' 10 3100, tickAt ''Run'' 10 3400, tickAt ''Run'' 10 3700] =
          (fst (watcherTick stableWatcher (tickAt ''Run'' 10 2800)), [])"
    by blast
  with h1 h2 h3 h4 s p show ?thesis by blast
qed

lemma tickAt_sel:
  "runButton (tickAt l n t) = Some l" "responseContainers (tickAt l n t) = [Some n]"
  "nowSample (tickAt l n t) = t" "nowCheck (tickAt l n t) = t"
  "storedSoundSettings (tickAt l n t) =
     Stored (Some \<lparr>enabled = True, sound = ''complete2'', volume = 1\<rparr>)"
  by (simp_all add: tickAt_def)

lemmas tick_eval =
  watcherTick_def sampleStability_def observedLength_def truthy_def elapsedSince_def
  RESPONSE_DEBOUNCE_MS_def completionSounds_def tickAt_sel includes_Run_Stop
  includes_Stop_Stop played_def watcherSystem_def

lemma completedRun_result:
  "runTicks watcherSystem completedRun =
     (\<lparr>intervalId = None, status = IDLE, lastContentLength = 10, stableSince = Some 1600,
       soundSettings = Some \<lparr>enabled = True, sound = ''complete2'', volume = 1\<rparr>\<rparr>,
      [\<lparr>enabled = True, sound = ''complete2'', volume = 1\<rparr>])"
  by (simp add: completedRun_def tick_eval)

lemma shrinkingRun_result:
  "runTicks watcherSystem shrinkingRun =
     (\<lparr>intervalId = None, status = GENERATING, lastContentLength = 10, stableSince = Some 1600,
       soundSettings = Some \<lparr>enabled = True, sound = ''complete2'', volume = 1\<rparr>\<rparr>,
      [])"
  by (simp add: shrinkingRun_def tick_eval)

text \<open>
  C3, as the code has it. The claim that \<open>stableSince\<close> is null whenever the status is
  IDLE, and set only when the last two samples were equal, fails: after the run
  \<open>completedRun\<close> the watcher is in IDLE with \<open>stableSince\<close> still set, and after
  \<open>shrinkingRun\<close>, whose last two samples are 10 and 5, \<open>stableSince\<close> is set.
\<close>

theorem stableSince_survives_completion:
  "status (fst (runTicks watcherSystem completedRun)) = IDLE \<and>
   stableSince (fst (runTicks watcherSystem completedRun)) = Some 1600 \<and>
   status (fst (runTicks watcherSystem shrinkingRun)) = GENERATING \<and>
   stableSince (fst (runTicks watcherSystem shrinkingRun)) = Some 1600 \<and>
   map observedLength (drop 1 shrinkingRun) = [Some 10, Some 5]"
  by (simp add: completedRun_result shrinkingRun_result)
     (simp add: shrinkingRun_def observedLength_def tickAt_sel)

lemma recorded_tick: "recorded w \<Longrightarrow> recorded (fst (watcherTick w inp))"
  by (auto simp: recorded_def watcherTick_def sampleStability_def observedLength_def Let_def
           split: option.splits storage_read.splits if_splits)

lemma recorded_run: "recorded w \<Longrightarrow> recorded (fst (runTicks w inps))"
proof (induction inps arbitrary: w)
  case Nil
  then show ?case by simp
next
  case (Cons i inps)
  have "recorded (fst (watcherTick w i))" using Cons.prems by (rule recorded_tick)
  then have "recorded (fst (runTicks (fst (watcherTick w i)) inps))" by (rule Cons.IH)
  then show ?case by (simp add: split_beta)
qed

text \<open>
  C3, amended. In every state reached from the initial one, \<open>stableSince\<close> is set only
  if a content length has been recorded (\<open>lastContentLength\<close> is not negative). The
  IDLE \<open>\<rightarrow>\<close> GENERATING transition clears it. After a tick in GENERATING that sampled a
  length, it is set exactly when that length did not exceed \<open>lastContentLength\<close>. The
  GENERATING \<open>\<rightarrow>\<close> IDLE transition leaves it as the sampling left it, which is set.
\<close>

theorem stableSince_lifecycle:
  "(stableSince (fst (runTicks watcherSystem inps)) \<noteq> None \<longrightarrow>
      0 \<le> lastContentLength (fst (runTicks watcherSystem inps))) \<and>
   (status w = IDLE \<and> runButton inp = Some label \<and> includes_str label ''Stop'' \<longrightarrow>
      stableSince (fst (watcherTick w inp)) = None) \<and>
   (status w = GENERATING \<and> runButton inp = Some label \<and>
    observedLength inp = Some currentLength \<longrightarrow>
      (stableSince (fst (watcherTick w inp)) \<noteq> None) = (currentLength \<le> lastContentLength w)) \<and>
   (status w = GENERATING \<and> status (fst (watcherTick w inp)) = IDLE \<longrightarrow>
      stableSince (fst (watcherTick w inp)) \<noteq> None \<and>
      stableSince (fst (watcherTick w inp)) = stableSince (sampleStability w inp))"
proof -
  have "recorded watcherSystem" by (simp add: recorded_def watcherSystem_def)
  then have a: "stableSince (fst (runTicks watcherSystem inps)) \<noteq> None \<longrightarrow>
      0 \<le> lastContentLength (fst (runTicks watcherSystem inps))"
    using recorded_run [of watcherSystem inps] by (simp add: recorded_def)
  have b: "status w = IDLE \<and> runButton inp = Some label \<and> includes_str label ''Stop'' \<longrightarrow>
      stableSince (fst (watcherTick w inp)) = None"
    by (auto simp: watcherTick_def Let_def split: storage_read.splits)
  have c: "status w = GENERATING \<and> runButton inp = Some label \<and>
    observedLength inp = Some currentLength \<longrightarrow>
      (stableSince (fst (watcherTick w inp)) \<noteq> None) = (currentLength \<le> lastContentLength w)"
    by (auto simp: watcherTick_def sampleStability_def Let_def split: if_splits)
  have d: "status w = GENERATING \<and> status (fst (watcherTick w inp)) = IDLE \<longrightarrow>
      stableSince (fst (watcherTick w inp)) \<noteq> None \<and>
      stableSince (fst (watcherTick w inp)) = stableSince (sampleStability w inp)"
    by (auto simp: watcherTick_def Let_def truthy_def sample_status
             split: option.splits if_splits)
  from a b c d show ?thesis by blast
qed

theorem stableSince_lifecycle_witness:
  "stableSince (fst (runTicks watcherSystem completedRun)) \<noteq> None \<and>
   0 \<le> lastContentLength (fst (runTicks watcherSystem completedRun)) \<and>
   status watcherSystem = IDLE \<and> runButton (tickAt ''Stop'' 0 1000) = Some ''Stop'' \<and>
   includes_str ''Stop'' ''Stop'' \<and>
   stableSince (fst (watcherTick watcherSystem (tickAt ''Stop'' 0 1000))) = None \<and>
   status stableWatcher = GENERATING \<and>
   observedLength (tickAt ''Run'' 10 2800) = Some 10 \<and>
   10 \<le> lastContentLength stableWatcher \<and>
   status (fst (watcherTick stableWatcher (tickAt ''Run'' 10 2800))) = IDLE \<and>
   stableSince (fst (watcherTick stableWatcher (tickAt ''Run'' 10 2800))) \<noteq> None"
proof -
  have h: "stableSince (fst (runTicks watcherSystem completedRun)) \<noteq> None"
    by (simp add: completedRun_result)
  have i: "status watcherSystem = IDLE" "runButton (tickAt ''Stop'' 0 1000) = Some ''Stop''"
    "includes_str ''Stop'' ''Stop''"
    by (simp_all add: watcherSystem_def tickAt_sel includes_Stop_Stop)
  have g: "status stableWatcher = GENERATING" "runButton (tickAt ''Run'' 10 2800) = Some ''Run''"
    "observedLength (tickAt ''Run'' 10 2800) = Some 10" "10 \<le> lastContentLength stableWatcher"
    by (simp_all add: stableWatcher_def tickAt_sel observedLength_def)
  have s: "status (fst (watcherTick stableWatcher (tickAt ''Run'' 10 2800))) = IDLE"
    by (simp add: stableWatcher_tick)
  from stableSince_lifecycle [of completedRun watcherSystem "tickAt ''Stop'' 0 1000" "''Stop''"]
    h i
  have p1: "0 \<le> lastContentLength (fst (runTicks watcherSystem completedRun))"
    and p2: "stableSince (fst (watcherTick watcherSystem (tickAt ''Stop'' 0 1000))) = None"
    by blast+
  from stableSince_lifecycle [of "[]" stableWatcher "tickAt ''Run'' 10 2800" "''Run''" 10] g s
  have p3: "stableSince (fst (watcherTick stableWatcher (tickAt ''Run'' 10 2800))) \<noteq> None"
    by blast
  from h i g s p1 p2 p3 show ?thesis by blast
qed

text \<open>
  C9, where the code falls short of it. On the IDLE \<open>\<rightarrow>\<close> GENERATING transition the
  settings are to be reloaded, with the defaults when there is nothing to load. When the
  storage read rejects, the tick has already set the status and reset the counters, but
  it keeps the settings it had and its promise is rejected: a watcher that has completed
  a generation with sound enabled keeps those settings, and a new watcher keeps none.
  The other storage reads of the file (\<open>getFilterConfig\<close>, \<open>getFilterStats\<close>) catch the
  failure and fall back to their defaults.
\<close>

theorem rejected_read_keeps_stale_settings:
  "watcherTick (fst (runTicks watcherSystem completedRun)) rejectedReadTick =
     (\<lparr>intervalId = None, status = GENERATING, lastContentLength = -1, stableSince = None,
       soundSettings = Some \<lparr>enabled = True, sound = ''complete2'', volume = 1\<rparr>\<rparr>,
      Rejected) \<and>
   watcherTick watcherSystem rejectedReadTick =
     (\<lparr>intervalId = None, status = GENERATING, lastContentLength = -1, stableSince = None,
       soundSettings = None\<rparr>,
      Rejected)"
  unfolding completedRun_result fst_conv
  by (simp add: rejectedReadTick_def watcherTick_def watcherSystem_def includes_Stop_Stop)

section \<open>Properties of the Stream Shortener\<close>

lemma indexOf_ge: "indexOf s pat \<ge> -1"
  by (induction s) (auto simp: Let_def)

lemma int_from_index: "(-1::int) \<le> i \<Longrightarrow> i \<noteq> -1 \<Longrightarrow> \<exists>n. i = int n"
  by (rule exI [of _ "nat i"]) simp

lemma indexOf_found:
  "indexOf s pat = int n \<Longrightarrow>
     n \<le> length s \<and> prefix pat (drop n s) \<and> (\<forall>k<n. \<not> prefix pat (drop k s))"
proof (induction s arbitrary: n)
  case Nil
  then show ?case by (auto split: if_splits)
next
  case (Cons c cs)
  show ?case
  proof (cases "prefix pat (c # cs)")
    case True
    with Cons.prems show ?thesis by simp
  next
    case False
    with Cons.prems have ne: "indexOf cs pat \<noteq> -1" and eq: "indexOf cs pat + 1 = int n"
      by (auto simp: Let_def split: if_splits)
    from indexOf_ge [of cs pat] ne eq obtain n' where n: "n = Suc n'" and i: "indexOf cs pat = int n'"
      by (cases n) auto
    from Cons.IH [OF i] have ih: "n' \<le> length cs" "prefix pat (drop n' cs)"
      "\<forall>k<n'. \<not> prefix pat (drop k cs)" by auto
    have "\<forall>k<n. \<not> prefix pat (drop k (c # cs))"
    proof (intro allI impI)
      fix k assume "k < n"
      then show "\<not> prefix pat (drop k (c # cs))"
        using False ih(3) n by (cases k) auto
    qed
    with ih n show ?thesis by simp
  qed
qed

lemma indexOf_absent:
  "indexOf s pat = -1 \<Longrightarrow> k \<le> length s \<Longrightarrow> \<not> prefix pat (drop k s)"
proof (induction s arbitrary: k)
  case Nil
  then show ?case by (auto split: if_splits)
next
  case (Cons c cs)
  from Cons.prems(1) indexOf_ge [of cs pat]
  have np: "\<not> prefix pat (c # cs)" and i: "indexOf cs pat = -1"
    by (auto simp: Let_def split: if_splits)
  show ?case
  proof (cases k)
    case 0
    with np show ?thesis by simp
  next
    case (Suc k')
    with Cons.prems(2) have "k' \<le> length cs" by simp
    from Cons.IH [OF i this] Suc show ?thesis by simp
  qed
qed

lemma indexOf_first:
  assumes "s = pre @ pat @ post" and "\<forall>k<length pre. \<not> prefix pat (drop k s)"
  shows "indexOf s pat = int (length pre)"
proof -
  have p: "prefix pat (drop (length pre) s)" using assms(1) by simp
  have le: "length pre \<le> length s" using assms(1) by simp
  have "indexOf s pat \<noteq> -1" using indexOf_absent [OF _ le] p by blast
  with indexOf_ge [of s pat] obtain n where n: "indexOf s pat = int n"
    using int_from_index by blast
  from indexOf_found [OF n] have f: "prefix pat (drop n s)" "\<forall>k<n. \<not> prefix pat (drop k s)" by auto
  have "\<not> n < length pre" using assms(2) f(1) by blast
  moreover have "\<not> length pre < n" using f(2) p by blast
  ultimately show ?thesis using n by simp
qed

lemma includes_str_sublist: "includes_str s pat = sublist pat s"
proof
  assume "includes_str s pat"
  then have "indexOf s pat \<noteq> -1" by (simp add: includes_str_def)
  with indexOf_ge [of s pat] obtain n where n: "indexOf s pat = int n"
    using int_from_index by blast
  from indexOf_found [OF n] have "prefix pat (drop n s)" by simp
  then obtain post where "drop n s = pat @ post" by (auto simp: prefix_def)
  then have "s = take n s @ pat @ post" by (metis append_take_drop_id)
  then show "sublist pat s" by (auto simp: sublist_def)
next
  assume "sublist pat s"
  then obtain pre post where s: "s = pre @ pat @ post" by (auto simp: sublist_def)
  then have "prefix pat (drop (length pre) s)" "length pre \<le> length s" by simp_all
  then have "indexOf s pat \<noteq> -1" using indexOf_absent by blast
  then show "includes_str s pat" by (simp add: includes_str_def)
qed


lemma substringFrom_nat: "substringFrom s (int k) = drop k s"
  by (simp add: substringFrom_def substring_def Let_def min_def max_def)

lemma substringFrom_suffix:
  "substringFrom (pre @ pat @ post) (int (length pre) + int (length pat)) = post"
proof -
  have "int (length pre) + int (length pat) = int (length (pre @ pat))" by simp
  then have "substringFrom (pre @ pat @ post) (int (length pre) + int (length pat)) =
             drop (length (pre @ pat)) ((pre @ pat) @ post)"
    by (simp only: substringFrom_nat append_assoc)
  then show ?thesis by simp
qed

lemma streaming_neq_final: "''streaming'' \<noteq> ''final''"
  by simp

lemma process_final:
  "litsyncShortened m = Some ''final'' \<Longrightarrow> processShorteningForContainer reparse m = m"
  by (simp add: processShorteningForContainer_def)




lemma cleanup_markup:
  "innerHTML (cleanupShorteningForContainer m) = innerHTML m"
  "litsyncHtmlBefore (cleanupShorteningForContainer m) = litsyncHtmlBefore m"
  "litsyncShortened (cleanupShorteningForContainer m) = litsyncShortened m"
  "contentArea (cleanupShorteningForContainer m) = contentArea m"
  "throttlePending (cleanupShorteningForContainer m) = throttlePending m"
  "\<not> observer (cleanupShorteningForContainer m)"
  by (auto simp: cleanupShorteningForContainer_def logEffect_def clearTimeout_def Let_def
           split: option.splits)

lemma finalize_found:
  assumes "innerHTML m = pre @ END_TAG_ESCAPED @ post"
    and "\<forall>k<length pre. \<not> prefix END_TAG_ESCAPED (drop k (innerHTML m))"
  shows "finalizeCallback reparse c m =
           (let m1 = (if c then cleanupShorteningForContainer (logEffect ReadMarkup m)
                      else logEffect ReadMarkup m);
                final = (case litsyncHtmlBefore m of None \<Rightarrow> [] | Some p \<Rightarrow> p) @
                        createShortenedPlaceholder @ post
            in m1\<lparr>innerHTML := reparse final,
                  throttlePending := (throttlePending m1 \<or> observer m1),
                  litsyncShortened := Some ''final'',
                  litsyncHtmlBefore := None,
                  debounceTimer := None,
                  domLog := domLog m1 @ [WriteMarkup final, SetShortened ''final'',
                                        RemoveHtmlBefore]\<rparr>)"
proof -
  have i: "indexOf (innerHTML m) END_TAG_ESCAPED = int (length pre)"
    using assms by (rule indexOf_first)
  have s: "substringFrom (innerHTML m) (int (length pre) + int (length END_TAG_ESCAPED)) = post"
    using assms(1) by (simp add: substringFrom_suffix)
  have b: "litsyncHtmlBefore (cleanupShorteningForContainer (logEffect ReadMarkup m)) =
             litsyncHtmlBefore m"
    by (simp add: cleanup_markup logEffect_def)
  show ?thesis
    using i s b
    by (simp add: finalizeCallback_def Let_def logEffect_def setInnerHTML_def)
qed

lemma finalize_absent:
  assumes "\<not> sublist END_TAG_ESCAPED (innerHTML m)"
  shows "finalizeCallback reparse c m = m\<lparr>domLog := domLog m @ [ReadMarkup]\<rparr>"
proof -
  have "indexOf (innerHTML m) END_TAG_ESCAPED = -1"
    using assms by (simp add: includes_str_sublist [symmetric] includes_str_def)
  then show ?thesis by (simp add: finalizeCallback_def Let_def logEffect_def)
qed


text \<open>
  C7. When a finalize timeout fires and the markup read then does not contain the end
  marker, the callback only reads: apart from the timeout having fired, the message is
  as before. The state attribute, the markup, the stored prefix, the observer and the
  entry of the timer map are unchanged, and the callback has no failing statement.
\<close>

theorem marker_vanished:
  assumes "t \<in> set (activeTimers m)" and "\<not> sublist END_TAG_ESCAPED (innerHTML m)"
    and "litsyncShortened m = Some ''streaming''"
  shows "timerFires reparse t c m =
           m\<lparr>activeTimers := removeAll t (activeTimers m),
             domLog := domLog m @ [ReadMarkup]\<rparr> \<and>
         litsyncShortened (timerFires reparse t c m) = Some ''streaming'' \<and>
         innerHTML (timerFires reparse t c m) = innerHTML m \<and>
         litsyncHtmlBefore (timerFires reparse t c m) = litsyncHtmlBefore m \<and>
         observer (timerFires reparse t c m) = observer m \<and>
         finalTransitions (domLog (timerFires reparse t c m)) = finalTransitions (domLog m)"
  using assms
    finalize_absent [of "m\<lparr>activeTimers := removeAll t (activeTimers m)\<rparr>" reparse c]
  by (simp add: timerFires_def finalTransitions_def)

lemma indexOf_partial: "indexOf partialMarkup START_TAG_ESCAPED = 8"
  by (simp add: partialMarkup_def START_TAG_ESCAPED_def)

lemma includes_example: "includes_str exampleMarkup END_TAG_ESCAPED"
  by (simp add: exampleMarkup_def END_TAG_ESCAPED_def includes_str_def)


lemma exampleBrowser_unbalanced:
  "exampleBrowser (''<p>Intro '' @ createShortenedPlaceholder) =
     ''<p>Intro </p>'' @ createShortenedPlaceholder"
  "exampleBrowser (''<p>Intro '' @ createShortenedPlaceholder @ '' tail</p>'') =
     ''<p>Intro </p>'' @ createShortenedPlaceholder @ '' tail<p></p>''"
  by (simp_all add: exampleBrowser_def)

lemma wired_partial:
  "run exampleBrowser [Wire, ThrottleFires] (freshMessage partialMarkup) =
     (freshMessage partialMarkup)
       \<lparr>litsyncShortenInit := True, observer := True, throttlePending := True,
        litsyncHtmlBefore := Some ''<p>A</p>'',
        innerHTML := ''<p>A</p>'' @ createShortenedPlaceholder,
        litsyncShortened := Some ''streaming'',
        domLog := [ObserverObserve, ReadMarkup, SetHtmlBefore ''<p>A</p>'',
                   WriteMarkup (''<p>A</p>'' @ createShortenedPlaceholder),
                   SetShortened ''streaming'']\<rparr>"
  by (simp add: freshMessage_def initializeShorteningForContainer_def throttleFires_def
        processShorteningForContainer_def logEffect_def setInnerHTML_def indexOf_partial
        Let_def)
     (simp add: partialMarkup_def substring_def exampleBrowser_def)

lemma streamingExample_eq:
  "streamingExample =
     (freshMessage exampleMarkup)
       \<lparr>litsyncShortenInit := True, observer := True,
        litsyncHtmlBefore := Some ''<p>A</p>'',
        litsyncShortened := Some ''streaming'',
        debounceTimer := Some 1, activeTimers := [1], timerSeq := 1,
        domLog := [ObserverObserve, ReadMarkup, SetHtmlBefore ''<p>A</p>'',
                   WriteMarkup (''<p>A</p>'' @ createShortenedPlaceholder),
                   SetShortened ''streaming'', ReadMarkup, SetTimeout 1]\<rparr>"
proof -
  have "streamingExample =
          run exampleBrowser [HostMutation exampleMarkup, ThrottleFires]
            (run exampleBrowser [Wire, ThrottleFires] (freshMessage partialMarkup))"
    by (simp add: streamingExample_def)
  then show ?thesis
    unfolding wired_partial
    by (simp add: freshMessage_def hostMutation_def throttleFires_def
          processShorteningForContainer_def logEffect_def includes_example setTimeout_def
          Let_def)
qed



lemma exampleMarkup_end:
  "exampleMarkup = ''<p>A</p>&lt;files&gt;BIGBLOB'' @ END_TAG_ESCAPED @ ''<p>Z</p>''"
  by (simp add: exampleMarkup_def END_TAG_ESCAPED_def)

lemma exampleMarkup_end_first:
  "\<forall>k<length ''<p>A</p>&lt;files&gt;BIGBLOB''. \<not> prefix END_TAG_ESCAPED (drop k exampleMarkup)"
proof -
  have "indexOf exampleMarkup END_TAG_ESCAPED = int (length ''<p>A</p>&lt;files&gt;BIGBLOB'')"
    by (simp add: exampleMarkup_def END_TAG_ESCAPED_def)
  from indexOf_found [OF this] show ?thesis by blast
qed


lemma vanished_no_end: "\<not> sublist END_TAG_ESCAPED ''<p>A</p>&lt;files&gt;BIGBLOB&lt;/fil''"
  by (simp add: includes_str_sublist [symmetric] includes_str_def END_TAG_ESCAPED_def)



lemma vanishedExample_eq:
  "vanishedExample =
     streamingExample\<lparr>innerHTML := ''<p>A</p>&lt;files&gt;BIGBLOB&lt;/fil'',
                      throttlePending := True\<rparr>"
  by (simp add: vanishedExample_def hostMutation_def streamingExample_eq freshMessage_def)

theorem marker_vanished_witness:
  "1 \<in> set (activeTimers vanishedExample) \<and>
   \<not> sublist END_TAG_ESCAPED (innerHTML vanishedExample) \<and>
   litsyncShortened vanishedExample = Some ''streaming'' \<and>
   litsyncShortened (timerFires exampleBrowser 1 True vanishedExample) = Some ''streaming'' \<and>
   innerHTML (timerFires exampleBrowser 1 True vanishedExample) = ''<p>A</p>&lt;files&gt;BIGBLOB&lt;/fil'' \<and>
   litsyncHtmlBefore (timerFires exampleBrowser 1 True vanishedExample) = Some ''<p>A</p>'' \<and>
   observer (timerFires exampleBrowser 1 True vanishedExample)"
proof -
  have h1: "1 \<in> set (activeTimers vanishedExample)"
    by (simp add: vanishedExample_eq streamingExample_eq)
  have h2: "\<not> sublist END_TAG_ESCAPED (innerHTML vanishedExample)"
    using vanished_no_end by (simp add: vanishedExample_eq)
  have h3: "litsyncShortened vanishedExample = Some ''streaming''"
    by (simp add: vanishedExample_eq streamingExample_eq)
  have f: "innerHTML vanishedExample = ''<p>A</p>&lt;files&gt;BIGBLOB&lt;/fil''"
    "litsyncHtmlBefore vanishedExample = Some ''<p>A</p>''" "observer vanishedExample"
    by (simp_all add: vanishedExample_eq streamingExample_eq)
  from marker_vanished [OF h1 h2 h3, where c = True and reparse = exampleBrowser] f h1 h2 h3
  show ?thesis by simp
qed










lemma timers_ok_iff:
  "timers_ok m =
     (distinct (activeTimers m) \<and>
      (\<forall>t\<in>set (activeTimers m). t \<noteq> 0 \<and> t \<le> timerSeq m \<and> debounceTimer m = Some t))"
  by (simp add: timers_ok_def list_all_iff)

lemma timers_ok_cases:
  "timers_ok m =
     (activeTimers m = [] \<or>
      (\<exists>t. t \<noteq> 0 \<and> t \<le> timerSeq m \<and> activeTimers m = [t] \<and> debounceTimer m = Some t))"
proof (cases "activeTimers m")
  case Nil
  then show ?thesis by (simp add: timers_ok_iff)
next
  case (Cons a as)
  show ?thesis
  proof (cases as)
    case Nil
    with Cons show ?thesis by (auto simp: timers_ok_iff)
  next
    case (Cons b bs)
    with \<open>activeTimers m = a # as\<close> show ?thesis by (auto simp: timers_ok_iff)
  qed
qed

lemma timers_ok_length: "timers_ok m \<Longrightarrow> length (activeTimers m) \<le> 1"
  by (auto simp: timers_ok_cases)

lemma timers_ok_hostMutation: "timers_ok m \<Longrightarrow> timers_ok (hostMutation s m)"
  by (simp add: timers_ok_def hostMutation_def)

lemma timers_ok_cleanup: "timers_ok m \<Longrightarrow> timers_ok (cleanupShorteningForContainer m)"
  by (auto simp: timers_ok_cases cleanupShorteningForContainer_def logEffect_def
        clearTimeout_def Let_def split: option.splits)

lemma timers_ok_initialize: "timers_ok m \<Longrightarrow> timers_ok (initializeShorteningForContainer m)"
  by (simp add: timers_ok_def initializeShorteningForContainer_def logEffect_def)

lemma process_streaming_end:
  assumes "contentArea m" and "litsyncShortened m = Some ''streaming''"
    and "includes_str (innerHTML m) END_TAG_ESCAPED" and "timers_ok m"
  shows "processShorteningForContainer reparse m =
           m\<lparr>timerSeq := Suc (timerSeq m),
             activeTimers := [Suc (timerSeq m)],
             debounceTimer := Some (Suc (timerSeq m)),
             domLog := domLog m @ [ReadMarkup] @
                       (case debounceTimer m of
                          None \<Rightarrow> []
                        | Some t \<Rightarrow> if t \<noteq> 0 then [ClearTimeout t] else []) @
                       [SetTimeout (Suc (timerSeq m))]\<rparr>"
  using assms
  by (auto simp: processShorteningForContainer_def Let_def logEffect_def setTimeout_def
        clearTimeout_def timers_ok_cases split: option.splits)

lemma process_streaming_no_end:
  assumes "contentArea m" and "litsyncShortened m = Some ''streaming''"
    and "\<not> includes_str (innerHTML m) END_TAG_ESCAPED"
  shows "processShorteningForContainer reparse m = m\<lparr>domLog := domLog m @ [ReadMarkup]\<rparr>"
  using assms by (simp add: processShorteningForContainer_def Let_def logEffect_def)

lemma process_timers:
  "activeTimers (processShorteningForContainer reparse m) = activeTimers m \<and>
   debounceTimer (processShorteningForContainer reparse m) = debounceTimer m \<and>
   timerSeq (processShorteningForContainer reparse m) = timerSeq m \<or>
   contentArea m \<and> litsyncShortened m = Some ''streaming'' \<and>
   includes_str (innerHTML m) END_TAG_ESCAPED"
  by (auto simp: processShorteningForContainer_def Let_def logEffect_def setInnerHTML_def)

lemma timers_ok_process: "timers_ok m \<Longrightarrow> timers_ok (processShorteningForContainer reparse m)"
proof -
  assume ok: "timers_ok m"
  from process_timers [where m = m and reparse = reparse] show ?thesis
  proof
    assume "activeTimers (processShorteningForContainer reparse m) = activeTimers m \<and>
            debounceTimer (processShorteningForContainer reparse m) = debounceTimer m \<and>
            timerSeq (processShorteningForContainer reparse m) = timerSeq m"
    with ok show ?thesis by (simp add: timers_ok_def)
  next
    assume "contentArea m \<and> litsyncShortened m = Some ''streaming'' \<and>
            includes_str (innerHTML m) END_TAG_ESCAPED"
    with ok have "processShorteningForContainer reparse m =
           m\<lparr>timerSeq := Suc (timerSeq m),
             activeTimers := [Suc (timerSeq m)],
             debounceTimer := Some (Suc (timerSeq m)),
             domLog := domLog m @ [ReadMarkup] @
                       (case debounceTimer m of
                          None \<Rightarrow> []
                        | Some t \<Rightarrow> if t \<noteq> 0 then [ClearTimeout t] else []) @
                       [SetTimeout (Suc (timerSeq m))]\<rparr>"
      by (intro process_streaming_end) simp_all
    then show ?thesis by (simp add: timers_ok_def)
  qed
qed

lemma timers_ok_throttleFires: "timers_ok m \<Longrightarrow> timers_ok (throttleFires reparse m)"
proof -
  assume ok: "timers_ok m"
  then have "timers_ok (m\<lparr>throttlePending := False\<rparr>)" by (simp add: timers_ok_def)
  then have "timers_ok (processShorteningForContainer reparse (m\<lparr>throttlePending := False\<rparr>))"
    by (rule timers_ok_process)
  with ok show ?thesis by (simp add: throttleFires_def)
qed

lemma finalize_timers:
  "activeTimers m = [] \<Longrightarrow> activeTimers (finalizeCallback reparse c m) = []"
  by (auto simp: finalizeCallback_def Let_def logEffect_def setInnerHTML_def
        cleanupShorteningForContainer_def clearTimeout_def split: option.splits)

lemma timers_ok_timerFires: "timers_ok m \<Longrightarrow> timers_ok (timerFires reparse t c m)"
proof -
  assume ok: "timers_ok m"
  show ?thesis
  proof (cases "t \<in> set (activeTimers m)")
    case False
    with ok show ?thesis by (simp add: timerFires_def)
  next
    case True
    with ok have "activeTimers m = [t]" by (auto simp: timers_ok_cases)
    then have "activeTimers (m\<lparr>activeTimers := removeAll t (activeTimers m)\<rparr>) = []" by simp
    then have "activeTimers (finalizeCallback reparse c (m\<lparr>activeTimers := removeAll t (activeTimers m)\<rparr>)) = []"
      by (rule finalize_timers)
    with True show ?thesis by (simp add: timerFires_def timers_ok_def)
  qed
qed

lemma timers_ok_step: "timers_ok m \<Longrightarrow> timers_ok (step reparse e m)"
  by (cases e)
     (simp_all add: timers_ok_hostMutation timers_ok_throttleFires timers_ok_timerFires
        timers_ok_cleanup timers_ok_initialize)

lemma timers_ok_run: "timers_ok m \<Longrightarrow> timers_ok (run reparse es m)"
  by (induction es arbitrary: m) (simp_all add: timers_ok_step)

lemma includes_decompose:
  assumes "includes_str s pat"
  shows "\<exists>pre post. s = pre @ pat @ post \<and> (\<forall>k<length pre. \<not> prefix pat (drop k s))"
proof -
  from assms have "indexOf s pat \<noteq> -1" by (simp add: includes_str_def)
  with indexOf_ge [of s pat] obtain n where n: "indexOf s pat = int n"
    using int_from_index by blast
  from indexOf_found [OF n]
  have le: "n \<le> length s" and p: "prefix pat (drop n s)"
    and f: "\<forall>k<n. \<not> prefix pat (drop k s)" by auto
  from p obtain post where "drop n s = pat @ post" by (auto simp: prefix_def)
  then have "s = take n s @ pat @ post" by (metis append_take_drop_id)
  moreover have "length (take n s) = n" using le by simp
  ultimately show ?thesis using f by metis
qed

lemma finalTransitions_append:
  "finalTransitions (xs @ ys) = finalTransitions xs + finalTransitions ys"
  by (simp add: finalTransitions_def)

lemma cleanup_finalTransitions:
  "finalTransitions (domLog (cleanupShorteningForContainer m)) = finalTransitions (domLog m)"
  by (auto simp: cleanupShorteningForContainer_def logEffect_def clearTimeout_def Let_def
        finalTransitions_def split: option.splits)

lemma finalize_counts:
  assumes "includes_str (innerHTML m) END_TAG_ESCAPED"
  shows "finalTransitions (domLog (finalizeCallback reparse c m)) = Suc (finalTransitions (domLog m)) \<and>
         litsyncShortened (finalizeCallback reparse c m) = Some ''final''"
proof -
  from includes_decompose [OF assms] obtain pre post
    where d: "innerHTML m = pre @ END_TAG_ESCAPED @ post"
      and f: "\<forall>k<length pre. \<not> prefix END_TAG_ESCAPED (drop k (innerHTML m))" by blast
  have l: "finalTransitions (domLog (logEffect ReadMarkup m)) = finalTransitions (domLog m)"
    by (simp add: logEffect_def finalTransitions_def)
  show ?thesis
    unfolding finalize_found [OF d f]
    using l cleanup_finalTransitions [of "logEffect ReadMarkup m"]
    by (simp add: Let_def finalTransitions_def)
qed

text \<open>Iterating the processing step on a streaming message whose markup holds the end
  marker.\<close>

lemma process_streaming_iter:
  assumes "contentArea m" and "litsyncShortened m = Some ''streaming''"
    and "includes_str (innerHTML m) END_TAG_ESCAPED" and "timers_ok m"
  shows "contentArea ((processShorteningForContainer reparse ^^ n) m) \<and>
         litsyncShortened ((processShorteningForContainer reparse ^^ n) m) = Some ''streaming'' \<and>
         innerHTML ((processShorteningForContainer reparse ^^ n) m) = innerHTML m \<and>
         timers_ok ((processShorteningForContainer reparse ^^ n) m) \<and>
         timerSeq ((processShorteningForContainer reparse ^^ n) m) = timerSeq m + n \<and>
         finalTransitions (domLog ((processShorteningForContainer reparse ^^ n) m)) =
           finalTransitions (domLog m) \<and>
         (0 < n \<longrightarrow> activeTimers ((processShorteningForContainer reparse ^^ n) m) = [timerSeq m + n])"
proof (induction n)
  case 0
  with assms show ?case by simp
next
  case (Suc n)
  let ?p = "(processShorteningForContainer reparse ^^ n) m"
  from Suc have a: "contentArea ?p" "litsyncShortened ?p = Some ''streaming''"
    "includes_str (innerHTML ?p) END_TAG_ESCAPED" "timers_ok ?p"
    using assms(3) by simp_all
  from Suc have b: "innerHTML ?p = innerHTML m" "timerSeq ?p = timerSeq m + n"
    "finalTransitions (domLog ?p) = finalTransitions (domLog m)" by simp_all
  have ok: "timers_ok (processShorteningForContainer reparse ?p)"
    using a(4) by (rule timers_ok_process)
  show ?case
    using a(1,2) b ok
    by (simp add: process_streaming_end [OF a] finalTransitions_def split: option.splits)
qed

text \<open>
  C6. From a message as the page first shows it, and from any message whose only
  possible active finalize timeout is the recorded one, whatever happens, at most one
  finalize timeout is active at any time. A processing
  invocation that sees the end marker in the streaming phase clears the pending timeout
  before it sets the new one, which is then the only active one. After any positive
  number of such invocations exactly one timeout is active; when it fires, the log gains
  exactly one transition to \<open>final\<close> and no timeout remains.
\<close>

theorem one_outstanding_timer:
  assumes "timers_ok m"
  shows "length (activeTimers (run reparse es0 (freshMessage s))) \<le> 1 \<and>
         length (activeTimers (run reparse es m)) \<le> 1 \<and>
         (contentArea m \<and> litsyncShortened m = Some ''streaming'' \<and>
          sublist END_TAG_ESCAPED (innerHTML m) \<longrightarrow>
            activeTimers (processShorteningForContainer reparse m) = [Suc (timerSeq m)] \<and>
            (\<forall>t\<in>set (activeTimers m).
               t \<noteq> Suc (timerSeq m) \<and>
               domLog (processShorteningForContainer reparse m) =
                 domLog m @ [ReadMarkup, ClearTimeout t, SetTimeout (Suc (timerSeq m))]) \<and>
            (0 < n \<longrightarrow>
               activeTimers ((processShorteningForContainer reparse ^^ n) m) = [timerSeq m + n] \<and>
               finalTransitions (domLog ((processShorteningForContainer reparse ^^ n) m)) =
                 finalTransitions (domLog m) \<and>
               finalTransitions
                 (domLog (timerFires reparse (timerSeq m + n) c ((processShorteningForContainer reparse ^^ n) m))) =
                 Suc (finalTransitions (domLog m)) \<and>
               litsyncShortened
                 (timerFires reparse (timerSeq m + n) c ((processShorteningForContainer reparse ^^ n) m)) =
                 Some ''final'' \<and>
               activeTimers
                 (timerFires reparse (timerSeq m + n) c ((processShorteningForContainer reparse ^^ n) m)) = []))"
proof -
  have a: "length (activeTimers (run reparse es m)) \<le> 1"
    using assms by (intro timers_ok_length timers_ok_run)
  have b: "activeTimers (processShorteningForContainer reparse m) = [Suc (timerSeq m)] \<and>
            (\<forall>t\<in>set (activeTimers m).
               t \<noteq> Suc (timerSeq m) \<and>
               domLog (processShorteningForContainer reparse m) =
                 domLog m @ [ReadMarkup, ClearTimeout t, SetTimeout (Suc (timerSeq m))]) \<and>
            (0 < n \<longrightarrow>
               activeTimers ((processShorteningForContainer reparse ^^ n) m) = [timerSeq m + n] \<and>
               finalTransitions (domLog ((processShorteningForContainer reparse ^^ n) m)) =
                 finalTransitions (domLog m) \<and>
               finalTransitions
                 (domLog (timerFires reparse (timerSeq m + n) c ((processShorteningForContainer reparse ^^ n) m))) =
                 Suc (finalTransitions (domLog m)) \<and>
               litsyncShortened
                 (timerFires reparse (timerSeq m + n) c ((processShorteningForContainer reparse ^^ n) m)) =
                 Some ''final'' \<and>
               activeTimers
                 (timerFires reparse (timerSeq m + n) c ((processShorteningForContainer reparse ^^ n) m)) = [])"
    if h: "contentArea m" "litsyncShortened m = Some ''streaming''"
      "sublist END_TAG_ESCAPED (innerHTML m)"
  proof -
    have inc: "includes_str (innerHTML m) END_TAG_ESCAPED"
      using h(3) by (simp add: includes_str_sublist)
    note p = process_streaming_end [OF h(1,2) inc assms]
    have b1: "activeTimers (processShorteningForContainer reparse m) = [Suc (timerSeq m)]"
      by (simp add: p)
    have b2: "\<forall>t\<in>set (activeTimers m).
               t \<noteq> Suc (timerSeq m) \<and>
               domLog (processShorteningForContainer reparse m) =
                 domLog m @ [ReadMarkup, ClearTimeout t, SetTimeout (Suc (timerSeq m))]"
      using assms by (auto simp: p timers_ok_iff)
    have b3: "activeTimers ((processShorteningForContainer reparse ^^ n) m) = [timerSeq m + n] \<and>
               finalTransitions (domLog ((processShorteningForContainer reparse ^^ n) m)) =
                 finalTransitions (domLog m) \<and>
               finalTransitions
                 (domLog (timerFires reparse (timerSeq m + n) c ((processShorteningForContainer reparse ^^ n) m))) =
                 Suc (finalTransitions (domLog m)) \<and>
               litsyncShortened
                 (timerFires reparse (timerSeq m + n) c ((processShorteningForContainer reparse ^^ n) m)) =
                 Some ''final'' \<and>
               activeTimers
                 (timerFires reparse (timerSeq m + n) c ((processShorteningForContainer reparse ^^ n) m)) = []"
      if pos: "0 < n"
    proof -
      let ?p = "(processShorteningForContainer reparse ^^ n) m"
      let ?q = "?p\<lparr>activeTimers := removeAll (timerSeq m + n) (activeTimers ?p)\<rparr>"
      from process_streaming_iter [OF h(1,2) inc assms, where n = n and reparse = reparse] pos
      have i: "innerHTML ?p = innerHTML m" "activeTimers ?p = [timerSeq m + n]"
        "finalTransitions (domLog ?p) = finalTransitions (domLog m)" by simp_all
      have f: "timerFires reparse (timerSeq m + n) c ?p = finalizeCallback reparse c ?q"
        using i(2) by (simp add: timerFires_def)
      have q: "includes_str (innerHTML ?q) END_TAG_ESCAPED" "activeTimers ?q = []"
        "finalTransitions (domLog ?q) = finalTransitions (domLog m)"
        using inc i by simp_all
      from finalize_counts [OF q(1), where c = c and reparse = reparse]
        finalize_timers [OF q(2), where c = c and reparse = reparse] q(3) i f
      show ?thesis by simp
    qed
    from b1 b2 b3 show ?thesis by blast
  qed
  have z: "length (activeTimers (run reparse es0 (freshMessage s))) \<le> 1"
    by (intro timers_ok_length timers_ok_run) (simp add: timers_ok_def freshMessage_def)
  from z a b show ?thesis by blast
qed

lemma finished_step:
  assumes "finished m"
  shows "finished (step reparse e m) \<and>
         finalTransitions (domLog (step reparse e m)) = finalTransitions (domLog m)"
proof (cases e)
  case (HostMutation s)
  with assms show ?thesis by (simp add: finished_def hostMutation_def)
next
  case ThrottleFires
  with assms show ?thesis by (simp add: finished_def throttleFires_def process_final)
next
  case (TimerFires t c)
  with assms show ?thesis by (simp add: finished_def timerFires_def)
next
  case Teardown
  with assms show ?thesis
    by (auto simp: finished_def cleanupShorteningForContainer_def logEffect_def
          clearTimeout_def Let_def finalTransitions_def split: option.splits)
next
  case Wire
  with assms show ?thesis
    by (simp add: finished_def initializeShorteningForContainer_def logEffect_def
          finalTransitions_def)
qed

lemma finished_run:
  "finished m \<Longrightarrow>
     finished (run reparse es m) \<and> finalTransitions (domLog (run reparse es m)) = finalTransitions (domLog m)"
proof (induction es arbitrary: m)
  case Nil
  then show ?case by simp
next
  case (Cons e es)
  from finished_step [OF Cons.prems, where e = e and reparse = reparse]
  have s: "finished (step reparse e m)"
    and l: "finalTransitions (domLog (step reparse e m)) = finalTransitions (domLog m)" by simp_all
  from Cons.IH [OF s] l show ?case by simp
qed

lemma cleanup_connected:
  assumes "observer m" and "contentArea m" and "debounceTimer m = Some t" and "t \<noteq> 0"
  shows "cleanupShorteningForContainer m =
           m\<lparr>observer := False, debounceTimer := None,
             activeTimers := removeAll t (activeTimers m),
             domLog := domLog m @ [ObserverDisconnect, ClearTimeout t]\<rparr>"
  using assms
  by (simp add: cleanupShorteningForContainer_def logEffect_def clearTimeout_def Let_def)

text \<open>
  C5, as the code has it. The claim that the final write is never seen by the observer
  fails when the \<open>closest\<close> lookup of the callback finds no container: the callback then
  skips \<open>cleanupShorteningForContainer\<close>, the observer of \<open>streamingExample\<close> stays
  connected, no disconnection is logged, and the final write notifies it (the throttled
  handler, idle before, is pending afterwards).
\<close>

theorem final_write_notifies_observer:
  "1 \<in> set (activeTimers streamingExample) \<and>
   includes_str (innerHTML streamingExample) END_TAG_ESCAPED \<and>
   observer streamingExample \<and> \<not> throttlePending streamingExample \<and>
   litsyncShortened (timerFires exampleBrowser 1 False streamingExample) = Some ''final'' \<and>
   observer (timerFires exampleBrowser 1 False streamingExample) \<and>
   throttlePending (timerFires exampleBrowser 1 False streamingExample) \<and>
   ObserverDisconnect \<notin> set (domLog (timerFires exampleBrowser 1 False streamingExample))"
  by (simp add: streamingExample_eq freshMessage_def timerFires_def finalizeCallback_def
        Let_def logEffect_def setInnerHTML_def)
     (simp add: exampleMarkup_def END_TAG_ESCAPED_def includes_str_def)

text \<open>
  C5, amended. Let a finalize timeout fire on a message whose markup contains the end
  marker. If the observer is connected and the \<open>closest\<close> lookup finds the container, the
  callback disconnects the observer before it writes the final markup: the log gains, in
  this order, the read, the disconnection, the clearing of the timer entry, the write and
  the two attribute changes; the observer is disconnected afterwards and the write has
  notified nobody. If the lookup finds no container, a connected observer stays connected
  and is notified by the write, and the processing step this notification starts returns
  at the test of the state attribute without reading or changing anything. In both
  cases, whatever happens after the callback, no further transition to \<open>final\<close> is logged.
  A processing invocation on a message in the \<open>final\<close> phase returns the message as it
  is, log included.
\<close>

theorem no_feedback_after_final:
  assumes "timers_ok m" and "t \<in> set (activeTimers m)"
    and "sublist END_TAG_ESCAPED (innerHTML m)"
  shows "(observer m \<and> contentArea m \<longrightarrow>
            (\<exists>final. domLog (timerFires reparse t True m) =
                       domLog m @ [ReadMarkup, ObserverDisconnect, ClearTimeout t,
                                   WriteMarkup final, SetShortened ''final'',
                                   RemoveHtmlBefore] \<and>
                     innerHTML (timerFires reparse t True m) = reparse final) \<and>
            \<not> observer (timerFires reparse t True m) \<and>
            throttlePending (timerFires reparse t True m) = throttlePending m) \<and>
         (observer m \<longrightarrow>
            (\<exists>final. domLog (timerFires reparse t False m) =
                       domLog m @ [ReadMarkup, WriteMarkup final, SetShortened ''final'',
                                   RemoveHtmlBefore]) \<and>
            observer (timerFires reparse t False m) \<and>
            throttlePending (timerFires reparse t False m) \<and>
            throttleFires reparse (timerFires reparse t False m) =
              (timerFires reparse t False m)\<lparr>throttlePending := False\<rparr>) \<and>
         litsyncShortened (timerFires reparse t c m) = Some ''final'' \<and>
         finalTransitions (domLog (timerFires reparse t c m)) = Suc (finalTransitions (domLog m)) \<and>
         finalTransitions (domLog (run reparse es (timerFires reparse t c m))) =
           finalTransitions (domLog (timerFires reparse t c m)) \<and>
         litsyncShortened (run reparse es (timerFires reparse t c m)) = Some ''final'' \<and>
         (litsyncShortened m' = Some ''final'' \<longrightarrow> processShorteningForContainer reparse m' = m')"
proof -
  let ?q = "m\<lparr>activeTimers := removeAll t (activeTimers m)\<rparr>"
  have inc: "includes_str (innerHTML ?q) END_TAG_ESCAPED"
    using assms(3) by (simp add: includes_str_sublist)
  have at: "activeTimers m = [t]" "debounceTimer m = Some t" "t \<noteq> 0"
    using assms(1,2) by (auto simp: timers_ok_cases)
  have f: "\<And>c. timerFires reparse t c m = finalizeCallback reparse c ?q"
    using assms(2) by (simp add: timerFires_def)
  have q: "activeTimers ?q = []" using at(1) by simp
  have fin: "\<And>c. finished (timerFires reparse t c m)"
    using finalize_counts [OF inc] finalize_timers [OF q] by (simp add: f finished_def)
  from includes_decompose [OF inc] obtain pre post
    where d: "innerHTML ?q = pre @ END_TAG_ESCAPED @ post"
      and n: "\<forall>k<length pre. \<not> prefix END_TAG_ESCAPED (drop k (innerHTML ?q))" by blast
  have a: "(\<exists>final. domLog (timerFires reparse t True m) =
                       domLog m @ [ReadMarkup, ObserverDisconnect, ClearTimeout t,
                                   WriteMarkup final, SetShortened ''final'',
                                   RemoveHtmlBefore] \<and>
                     innerHTML (timerFires reparse t True m) = reparse final) \<and>
            \<not> observer (timerFires reparse t True m) \<and>
            throttlePending (timerFires reparse t True m) = throttlePending m"
    if o: "observer m" "contentArea m"
  proof -
    have c: "cleanupShorteningForContainer (logEffect ReadMarkup ?q) =
               (logEffect ReadMarkup ?q)
                 \<lparr>observer := False, debounceTimer := None,
                  activeTimers := removeAll t (activeTimers (logEffect ReadMarkup ?q)),
                  domLog := domLog (logEffect ReadMarkup ?q) @ [ObserverDisconnect, ClearTimeout t]\<rparr>"
      using o at(2,3) by (intro cleanup_connected) (simp_all add: logEffect_def)
    show ?thesis
      unfolding f finalize_found [OF d n] Let_def if_True c
      by (simp add: logEffect_def)
  qed
  have a': "(\<exists>final. domLog (timerFires reparse t False m) =
                       domLog m @ [ReadMarkup, WriteMarkup final, SetShortened ''final'',
                                   RemoveHtmlBefore]) \<and>
            observer (timerFires reparse t False m) \<and>
            throttlePending (timerFires reparse t False m) \<and>
            throttleFires reparse (timerFires reparse t False m) =
              (timerFires reparse t False m)\<lparr>throttlePending := False\<rparr>"
    if o: "observer m"
  proof -
    have l: "litsyncShortened ((timerFires reparse t False m)\<lparr>throttlePending := False\<rparr>) =
               Some ''final''"
      using fin [of False] by (simp add: finished_def)
    have 1: "(\<exists>final. domLog (timerFires reparse t False m) =
                       domLog m @ [ReadMarkup, WriteMarkup final, SetShortened ''final'',
                                   RemoveHtmlBefore]) \<and>
            observer (timerFires reparse t False m) \<and>
            throttlePending (timerFires reparse t False m)"
      unfolding f finalize_found [OF d n] Let_def if_False
      using o by (simp add: logEffect_def)
    then have "throttleFires reparse (timerFires reparse t False m) =
              processShorteningForContainer reparse
                ((timerFires reparse t False m)\<lparr>throttlePending := False\<rparr>)"
      by (simp add: throttleFires_def)
    with 1 process_final [OF l, of reparse] show ?thesis by simp
  qed
  have b: "litsyncShortened (timerFires reparse t c m) = Some ''final''"
    using fin by (simp add: finished_def)
  have b': "finalTransitions (domLog (timerFires reparse t c m)) = Suc (finalTransitions (domLog m))"
    using finalize_counts [OF inc, where c = c and reparse = reparse] by (simp add: f)
  have r: "finalTransitions (domLog (run reparse es (timerFires reparse t c m))) =
           finalTransitions (domLog (timerFires reparse t c m))"
    "litsyncShortened (run reparse es (timerFires reparse t c m)) = Some ''final''"
    using finished_run [OF fin [of c], where es = es and reparse = reparse]
    by (simp_all add: finished_def)
  have p: "litsyncShortened m' = Some ''final'' \<longrightarrow> processShorteningForContainer reparse m' = m'"
    by (simp add: process_final)
  from a a' b b' r p show ?thesis by blast
qed

lemma streamingExample_facts:
  "timers_ok streamingExample" "contentArea streamingExample"
  "litsyncShortened streamingExample = Some ''streaming''"
  "innerHTML streamingExample = exampleMarkup"
  "activeTimers streamingExample = [1]" "timerSeq streamingExample = 1"
  "observer streamingExample" "throttlePending streamingExample = False"
  "finalTransitions (domLog streamingExample) = 0"
  "domLog streamingExample =
     [ObserverObserve, ReadMarkup, SetHtmlBefore ''<p>A</p>'',
      WriteMarkup (''<p>A</p>'' @ createShortenedPlaceholder),
      SetShortened ''streaming'', ReadMarkup, SetTimeout 1]"
  by (simp_all add: streamingExample_eq freshMessage_def timers_ok_def finalTransitions_def)

lemma streamingExample_end: "sublist END_TAG_ESCAPED (innerHTML streamingExample)"
  using includes_example by (simp add: streamingExample_facts includes_str_sublist)

theorem one_outstanding_timer_witness:
  "timers_ok streamingExample \<and>
   length (activeTimers
             (run exampleBrowser [HostMutation exampleMarkup, ThrottleFires, Teardown, TimerFires 2 True]
                streamingExample)) \<le> 1 \<and>
   contentArea streamingExample \<and> litsyncShortened streamingExample = Some ''streaming'' \<and>
   sublist END_TAG_ESCAPED (innerHTML streamingExample) \<and>
   activeTimers streamingExample = [1] \<and>
   activeTimers (processShorteningForContainer exampleBrowser streamingExample) = [2] \<and>
   domLog (processShorteningForContainer exampleBrowser streamingExample) =
     domLog streamingExample @ [ReadMarkup, ClearTimeout 1, SetTimeout 2] \<and>
   activeTimers ((processShorteningForContainer exampleBrowser ^^ 3) streamingExample) = [4] \<and>
   finalTransitions
     (domLog (timerFires exampleBrowser 4 True ((processShorteningForContainer exampleBrowser ^^ 3) streamingExample))) = 1 \<and>
   litsyncShortened
     (timerFires exampleBrowser 4 True ((processShorteningForContainer exampleBrowser ^^ 3) streamingExample)) = Some ''final'' \<and>
   activeTimers
     (timerFires exampleBrowser 4 True ((processShorteningForContainer exampleBrowser ^^ 3) streamingExample)) = []"
proof -
  note f = streamingExample_facts
  have pos: "(0::nat) < 3" by simp
  from one_outstanding_timer
         [OF f(1),
          where es = "[HostMutation exampleMarkup, ThrottleFires, Teardown, TimerFires 2 True]"
            and n = 3 and c = True and reparse = exampleBrowser]
    f(2,3) streamingExample_end pos
  have a: "length (activeTimers
             (run exampleBrowser [HostMutation exampleMarkup, ThrottleFires, Teardown, TimerFires 2 True]
                streamingExample)) \<le> 1"
    and b: "activeTimers (processShorteningForContainer exampleBrowser streamingExample) =
              [Suc (timerSeq streamingExample)]"
    and c: "\<forall>t\<in>set (activeTimers streamingExample).
               t \<noteq> Suc (timerSeq streamingExample) \<and>
               domLog (processShorteningForContainer exampleBrowser streamingExample) =
                 domLog streamingExample @
                 [ReadMarkup, ClearTimeout t, SetTimeout (Suc (timerSeq streamingExample))]"
    and d: "activeTimers ((processShorteningForContainer exampleBrowser ^^ 3) streamingExample) =
              [timerSeq streamingExample + 3]"
      "finalTransitions
         (domLog (timerFires exampleBrowser (timerSeq streamingExample + 3) True
                    ((processShorteningForContainer exampleBrowser ^^ 3) streamingExample))) =
         Suc (finalTransitions (domLog streamingExample))"
      "litsyncShortened
         (timerFires exampleBrowser (timerSeq streamingExample + 3) True
            ((processShorteningForContainer exampleBrowser ^^ 3) streamingExample)) = Some ''final''"
      "activeTimers
         (timerFires exampleBrowser (timerSeq streamingExample + 3) True
            ((processShorteningForContainer exampleBrowser ^^ 3) streamingExample)) = []"
    by blast+
  have s: "Suc (timerSeq streamingExample) = 2" "timerSeq streamingExample + 3 = 4"
    by (simp_all add: f(6))
  from c have c': "domLog (processShorteningForContainer exampleBrowser streamingExample) =
     domLog streamingExample @ [ReadMarkup, ClearTimeout 1, SetTimeout 2]"
    unfolding f(5) s by simp
  from a b c' d f(1,2,3,5,9) streamingExample_end show ?thesis
    unfolding s by simp
qed

theorem no_feedback_after_final_witness:
  "timers_ok streamingExample \<and> 1 \<in> set (activeTimers streamingExample) \<and>
   sublist END_TAG_ESCAPED (innerHTML streamingExample) \<and>
   observer streamingExample \<and> contentArea streamingExample \<and>
   take 3 (drop (length (domLog streamingExample))
             (domLog (timerFires exampleBrowser 1 True streamingExample))) =
     [ReadMarkup, ObserverDisconnect, ClearTimeout 1] \<and>
   isWrite (domLog (timerFires exampleBrowser 1 True streamingExample) !
              (length (domLog streamingExample) + 3)) \<and>
   \<not> observer (timerFires exampleBrowser 1 True streamingExample) \<and>
   \<not> throttlePending (timerFires exampleBrowser 1 True streamingExample) \<and>
   observer (timerFires exampleBrowser 1 False streamingExample) \<and>
   throttlePending (timerFires exampleBrowser 1 False streamingExample) \<and>
   throttleFires exampleBrowser (timerFires exampleBrowser 1 False streamingExample) =
     (timerFires exampleBrowser 1 False streamingExample)\<lparr>throttlePending := False\<rparr> \<and>
   finalTransitions (domLog (timerFires exampleBrowser 1 True streamingExample)) = 1 \<and>
   finalTransitions
     (domLog (run exampleBrowser
                [HostMutation exampleMarkup, ThrottleFires, TimerFires 1 True, Wire,
                 HostMutation exampleMarkup, ThrottleFires]
                (timerFires exampleBrowser 1 True streamingExample))) = 1 \<and>
   processShorteningForContainer exampleBrowser
     (timerFires exampleBrowser 1 True streamingExample) =
     timerFires exampleBrowser 1 True streamingExample"
proof -
  note f = streamingExample_facts
  have h: "1 \<in> set (activeTimers streamingExample)" by (simp add: f(5))
  note th = no_feedback_after_final
              [OF f(1) h streamingExample_end,
               where reparse = exampleBrowser and c = True
                 and es = "[HostMutation exampleMarkup, ThrottleFires, TimerFires 1 True, Wire,
                            HostMutation exampleMarkup, ThrottleFires]"
                 and m' = "timerFires exampleBrowser 1 True streamingExample"]
  from th f(2,7) obtain final
    where l: "domLog (timerFires exampleBrowser 1 True streamingExample) =
                domLog streamingExample @
                  [ReadMarkup, ObserverDisconnect, ClearTimeout 1, WriteMarkup final,
                   SetShortened ''final'', RemoveHtmlBefore]" by blast
  have l': "take 3 (drop (length (domLog streamingExample))
             (domLog (timerFires exampleBrowser 1 True streamingExample))) =
     [ReadMarkup, ObserverDisconnect, ClearTimeout 1]"
    "isWrite (domLog (timerFires exampleBrowser 1 True streamingExample) !
              (length (domLog streamingExample) + 3))"
    unfolding l by (simp_all add: isWrite_def nth_append)
  from th f(2,7,8) have o: "\<not> observer (timerFires exampleBrowser 1 True streamingExample)"
    "\<not> throttlePending (timerFires exampleBrowser 1 True streamingExample)" by simp_all
  from th f(7) have n: "observer (timerFires exampleBrowser 1 False streamingExample)"
    "throttlePending (timerFires exampleBrowser 1 False streamingExample)"
    "throttleFires exampleBrowser (timerFires exampleBrowser 1 False streamingExample) =
      (timerFires exampleBrowser 1 False streamingExample)\<lparr>throttlePending := False\<rparr>"
    by simp_all
  from th f(9)
  have c: "finalTransitions (domLog (timerFires exampleBrowser 1 True streamingExample)) = 1"
    "finalTransitions
     (domLog (run exampleBrowser
                [HostMutation exampleMarkup, ThrottleFires, TimerFires 1 True, Wire,
                 HostMutation exampleMarkup, ThrottleFires]
                (timerFires exampleBrowser 1 True streamingExample))) = 1"
    "processShorteningForContainer exampleBrowser
       (timerFires exampleBrowser 1 True streamingExample) =
     timerFires exampleBrowser 1 True streamingExample"
    by simp_all
  from l' o n c f(1,2,7) h streamingExample_end show ?thesis by blast
qed

section \<open>Properties of the scanner\<close>

lemma unwired_cleanup: "unwired m \<Longrightarrow> unwired (cleanupShorteningForContainer m)"
  by (auto simp: unwired_def cleanupShorteningForContainer_def logEffect_def clearTimeout_def
        Let_def split: option.splits)

lemma process_wiring:
  "processed (processShorteningForContainer reparse m) = processed m \<and>
   litsyncShortenInit (processShorteningForContainer reparse m) = litsyncShortenInit m \<and>
   observer (processShorteningForContainer reparse m) = observer m"
  by (auto simp: processShorteningForContainer_def Let_def logEffect_def setInnerHTML_def
        setTimeout_def clearTimeout_def split: option.splits)

lemma unwired_process: "unwired m \<Longrightarrow> unwired (processShorteningForContainer reparse m)"
  by (simp add: unwired_def process_wiring)

lemma finalize_wiring:
  "processed (finalizeCallback reparse c m) = processed m \<and>
   litsyncShortenInit (finalizeCallback reparse c m) = litsyncShortenInit m \<and>
   (\<not> observer m \<longrightarrow> \<not> observer (finalizeCallback reparse c m))"
  by (auto simp: finalizeCallback_def Let_def logEffect_def setInnerHTML_def
        cleanupShorteningForContainer_def clearTimeout_def split: option.splits)

lemma unwired_dom_step:
  assumes "unwired m" and "e \<noteq> Wire"
  shows "unwired (step reparse e m)"
proof (cases e)
  case (HostMutation s)
  with assms show ?thesis by (simp add: unwired_def hostMutation_def)
next
  case ThrottleFires
  have "unwired (m\<lparr>throttlePending := False\<rparr>)" using assms(1) by (simp add: unwired_def)
  then have "unwired (processShorteningForContainer reparse (m\<lparr>throttlePending := False\<rparr>))"
    by (rule unwired_process)
  with ThrottleFires assms(1) show ?thesis by (simp add: throttleFires_def)
next
  case (TimerFires t c)
  with assms(1)
    finalize_wiring [where c = c and reparse = reparse
                       and m = "m\<lparr>activeTimers := removeAll t (activeTimers m)\<rparr>"]
  show ?thesis by (simp add: unwired_def timerFires_def)
next
  case Teardown
  with assms(1) show ?thesis by (simp add: unwired_cleanup)
next
  case Wire
  with assms(2) show ?thesis by simp
qed

lemma unwired_scan: "unwired m \<Longrightarrow> scanMessage b m = m"
  by (simp add: unwired_def scanMessage_def)

lemma unwired_worldStep:
  assumes "i < length (messages w)" and "unwired (messages w ! i)"
    and "case e of EnabledChanged b s \<Rightarrow> b | _ \<Rightarrow> True"
  shows "i < length (messages (worldStep reparse e w)) \<and> unwired (messages (worldStep reparse e w) ! i)"
proof (cases e)
  case ScanTick
  with assms show ?thesis by (simp add: scanAndProcessMessages_def unwired_scan)
next
  case (ShortenChanged b)
  with assms show ?thesis by (simp add: onShortenChanged_def Let_def unwired_cleanup)
next
  case (EnabledChanged b s)
  with assms show ?thesis by (simp add: initialize_def)
next
  case (NewMessage s c)
  with assms show ?thesis by (simp add: nth_append)
next
  case (OnMessage j ev)
  show ?thesis
  proof (cases "j < length (messages w) \<and> ev \<noteq> Wire \<and> ev \<noteq> Teardown")
    case False
    with OnMessage assms show ?thesis by auto
  next
    case True
    show ?thesis
    proof (cases "j = i")
      case True
      with \<open>j < length (messages w) \<and> ev \<noteq> Wire \<and> ev \<noteq> Teardown\<close> OnMessage assms
        unwired_dom_step [where m = "messages w ! i" and e = ev and reparse = reparse]
      show ?thesis by simp
    next
      case False
      with \<open>j < length (messages w) \<and> ev \<noteq> Wire \<and> ev \<noteq> Teardown\<close> OnMessage assms
      show ?thesis by simp
    qed
  qed
qed

lemma unwired_worldRun:
  assumes "i < length (messages w)" and "unwired (messages w ! i)" and "noDismantle es"
  shows "i < length (messages (worldRun reparse es w)) \<and> unwired (messages (worldRun reparse es w) ! i)"
  using assms
proof (induction es arbitrary: w)
  case Nil
  then show ?case by simp
next
  case (Cons e es)
  from Cons.prems(3) have e: "case e of EnabledChanged b s \<Rightarrow> b | _ \<Rightarrow> True"
    and es: "noDismantle es" by (simp_all add: noDismantle_def)
  from unwired_worldStep [OF Cons.prems(1,2) e]
  have "i < length (messages (worldStep reparse e w))" "unwired (messages (worldStep reparse e w) ! i)"
    by simp_all
  from Cons.IH [OF this es] show ?case by simp
qed

lemma scannedWhileDisabled_result:
  "worldRun exampleBrowser scannedWhileDisabled initialWorld =
     \<lparr>messages = [(freshMessage partialMarkup)\<lparr>processed := True, syncButtons := 1\<rparr>],
      isShortenEnabled = False, domScannerInterval = True\<rparr>"
  by (simp add: scannedWhileDisabled_def initialWorld_def initialize_def
        scanAndProcessMessages_def scanMessage_def freshMessage_def)

lemma reEnabled_result:
  "worldRun exampleBrowser (scannedWhileDisabled @ reEnabled) initialWorld =
     \<lparr>messages = [(freshMessage partialMarkup)
                    \<lparr>processed := True, syncButtons := 1, litsyncShortenInit := True,
                     observer := True, throttlePending := True,
                     domLog := [ObserverObserve]\<rparr>],
      isShortenEnabled = True, domScannerInterval = True\<rparr>"
proof -
  have "worldRun exampleBrowser (scannedWhileDisabled @ reEnabled) initialWorld =
          worldRun exampleBrowser reEnabled (worldRun exampleBrowser scannedWhileDisabled initialWorld)"
    by (simp add: scannedWhileDisabled_def)
  then show ?thesis
    unfolding scannedWhileDisabled_result
    by (simp add: reEnabled_def onShortenChanged_def dismantle_def initialize_def
          scanAndProcessMessages_def scanMessage_def freshMessage_def
          cleanupShorteningForContainer_def initializeShorteningForContainer_def
          logEffect_def)
qed

text \<open>
  C10, as the code has it. The claim that a container scanned while shortening is
  disabled is marked for good and never gets a shortener fails: the container scanned in
  \<open>scannedWhileDisabled\<close> carries the marker and no observer, with shortening disabled;
  after \<open>reEnabled\<close>, which switches the extension off and on, the same container has been
  scanned again and has an observer.
\<close>

theorem rescanned_after_dismantle:
  "\<not> isShortenEnabled (worldRun exampleBrowser scannedWhileDisabled initialWorld) \<and>
   processed (messages (worldRun exampleBrowser scannedWhileDisabled initialWorld) ! 0) \<and>
   \<not> observer (messages (worldRun exampleBrowser scannedWhileDisabled initialWorld) ! 0) \<and>
   length (messages (worldRun exampleBrowser (scannedWhileDisabled @ reEnabled) initialWorld)) = 1 \<and>
   observer (messages (worldRun exampleBrowser (scannedWhileDisabled @ reEnabled) initialWorld) ! 0)"
  by (simp add: scannedWhileDisabled_result reEnabled_result freshMessage_def)

text \<open>
  C10, amended. A scan made while shortening is disabled marks an unmarked container as
  processed and leaves everything of the shortener as it was. As long as the extension
  is not switched off (which strips the markers), a container that carries the marker
  and has not been wired keeps the marker and is never wired, whatever the scanner, the
  shortening flag, the page and the timers do: enabling shortening later does not attach
  a shortener to it.
\<close>

theorem processed_never_wired:
  "(\<not> processed m \<longrightarrow>
      scanMessage False m = m\<lparr>processed := True, syncButtons := Suc (syncButtons m)\<rparr>) \<and>
   (i < length (messages w) \<and> processed (messages w ! i) \<and>
    \<not> litsyncShortenInit (messages w ! i) \<and> \<not> observer (messages w ! i) \<and>
    noDismantle es \<longrightarrow>
      i < length (messages (worldRun reparse es w)) \<and>
      processed (messages (worldRun reparse es w) ! i) \<and>
      \<not> litsyncShortenInit (messages (worldRun reparse es w) ! i) \<and>
      \<not> observer (messages (worldRun reparse es w) ! i))"
proof -
  have a: "\<not> processed m \<longrightarrow>
      scanMessage False m = m\<lparr>processed := True, syncButtons := Suc (syncButtons m)\<rparr>"
    by (simp add: scanMessage_def)
  have b: "i < length (messages w) \<and> processed (messages w ! i) \<and>
    \<not> litsyncShortenInit (messages w ! i) \<and> \<not> observer (messages w ! i) \<and>
    noDismantle es \<longrightarrow>
      i < length (messages (worldRun reparse es w)) \<and>
      processed (messages (worldRun reparse es w) ! i) \<and>
      \<not> litsyncShortenInit (messages (worldRun reparse es w) ! i) \<and>
      \<not> observer (messages (worldRun reparse es w) ! i)"
    using unwired_worldRun [where i = i and w = w and es = es and reparse = reparse]
    by (simp add: unwired_def)
  from a b show ?thesis by (rule conjI)
qed

theorem processed_never_wired_witness:
  "\<not> processed (freshMessage partialMarkup) \<and>
   scanMessage False (freshMessage partialMarkup) =
     (freshMessage partialMarkup)\<lparr>processed := True, syncButtons := 1\<rparr> \<and>
   0 < length (messages (worldRun exampleBrowser scannedWhileDisabled initialWorld)) \<and>
   processed (messages (worldRun exampleBrowser scannedWhileDisabled initialWorld) ! 0) \<and>
   \<not> litsyncShortenInit (messages (worldRun exampleBrowser scannedWhileDisabled initialWorld) ! 0) \<and>
   \<not> observer (messages (worldRun exampleBrowser scannedWhileDisabled initialWorld) ! 0) \<and>
   noDismantle [ShortenChanged True, ScanTick, OnMessage 0 (HostMutation exampleMarkup),
                OnMessage 0 ThrottleFires, NewMessage exampleMarkup True, ScanTick] \<and>
   processed
     (messages (worldRun exampleBrowser [ShortenChanged True, ScanTick, OnMessage 0 (HostMutation exampleMarkup),
                          OnMessage 0 ThrottleFires, NewMessage exampleMarkup True, ScanTick]
                  (worldRun exampleBrowser scannedWhileDisabled initialWorld)) ! 0) \<and>
   \<not> observer
     (messages (worldRun exampleBrowser [ShortenChanged True, ScanTick, OnMessage 0 (HostMutation exampleMarkup),
                          OnMessage 0 ThrottleFires, NewMessage exampleMarkup True, ScanTick]
                  (worldRun exampleBrowser scannedWhileDisabled initialWorld)) ! 0)"
proof -
  let ?w = "worldRun exampleBrowser scannedWhileDisabled initialWorld"
  let ?es = "[ShortenChanged True, ScanTick, OnMessage 0 (HostMutation exampleMarkup),
              OnMessage 0 ThrottleFires, NewMessage exampleMarkup True, ScanTick]"
  have h0: "\<not> processed (freshMessage partialMarkup)" "syncButtons (freshMessage partialMarkup) = 0"
    by (simp_all add: freshMessage_def)
  have h1: "0 < length (messages ?w)" "processed (messages ?w ! 0)"
    "\<not> litsyncShortenInit (messages ?w ! 0)" "\<not> observer (messages ?w ! 0)"
    by (simp_all add: scannedWhileDisabled_result freshMessage_def)
  have h2: "noDismantle ?es" by (simp add: noDismantle_def)
  note th = processed_never_wired
              [where m = "freshMessage partialMarkup" and i = 0 and w = ?w and es = ?es
                 and reparse = exampleBrowser]
  from th h0 have a: "scanMessage False (freshMessage partialMarkup) =
     (freshMessage partialMarkup)\<lparr>processed := True, syncButtons := 1\<rparr>" by simp
  from th h1 h2 have b: "processed (messages (worldRun exampleBrowser ?es ?w) ! 0)"
    "\<not> observer (messages (worldRun exampleBrowser ?es ?w) ! 0)" by blast+
  from h0(1) a h1 h2 b show ?thesis by blast
qed

end
